theory Spec2Isabelle
  imports Complex_Main
begin

section \<open>JavaScript numbers\<close>

text \<open>
  A JavaScript number is an IEEE-754 double.  The finite doubles are rationals, so a number
  is modelled as a rational or one of the three special values.  Comparisons on this type
  are the IEEE comparisons (every comparison with \<open>NaN\<close> is false).  The sign of zero is
  not modelled: no comparison in the worker distinguishes \<open>-0\<close> from \<open>0\<close>.
\<close>

datatype jsnum = Num rat | PosInf | NegInf | NaN

fun isFinite :: "jsnum \<Rightarrow> bool" where
  "isFinite (Num _) = True"
| "isFinite _ = False"

fun js_lt :: "jsnum \<Rightarrow> jsnum \<Rightarrow> bool" where
  "js_lt (Num x) (Num y) = (x < y)"
| "js_lt (Num _) PosInf = True"
| "js_lt NegInf (Num _) = True"
| "js_lt NegInf PosInf = True"
| "js_lt _ _ = False"

fun js_eq :: "jsnum \<Rightarrow> jsnum \<Rightarrow> bool" where
  "js_eq (Num x) (Num y) = (x = y)"
| "js_eq PosInf PosInf = True"
| "js_eq NegInf NegInf = True"
| "js_eq _ _ = False"

definition js_le :: "jsnum \<Rightarrow> jsnum \<Rightarrow> bool" where
  "js_le a b = (js_lt a b \<or> js_eq a b)"

definition js_gt :: "jsnum \<Rightarrow> jsnum \<Rightarrow> bool" where
  "js_gt a b = js_lt b a"

definition js_ge :: "jsnum \<Rightarrow> jsnum \<Rightarrow> bool" where
  "js_ge a b = js_le b a"

subsection \<open>Rounding to the nearest double\<close>

text \<open>
  \<open>round_double\<close> is round-to-nearest, ties-to-even, on a 53-bit significand with the
  double's exponent range: the magnitude is scaled into \<open>[2^52, 2^53)\<close> (or as far as the
  subnormal exponent \<open>-1074\<close> allows), rounded to an integer and scaled back.
\<close>

function norm_up :: "rat \<Rightarrow> int \<Rightarrow> rat \<times> int" where
  "norm_up m e = (if 2 ^ 53 \<le> m then norm_up (m / 2) (e + 1) else (m, e))"
  by pat_completeness auto
termination
proof (relation "measure (\<lambda>(m, e). nat \<lfloor>m\<rfloor>)")
  show "wf (measure (\<lambda>(m, e). nat \<lfloor>m\<rfloor>))" by simp
next
  fix m :: rat and e :: int
  assume big: "2 ^ 53 \<le> m"
  then have "m / 2 + 1 \<le> m" by simp
  then have "\<lfloor>m / 2 + 1\<rfloor> \<le> \<lfloor>m\<rfloor>" by (rule floor_mono)
  then have less: "\<lfloor>m / 2\<rfloor> < \<lfloor>m\<rfloor>" by simp
  have "(1::rat) \<le> m" using big by simp
  with less show "((m / 2, e + 1), (m, e)) \<in> measure (\<lambda>(m, e). nat \<lfloor>m\<rfloor>)"
    by simp
qed

function norm_down :: "rat \<Rightarrow> int \<Rightarrow> rat \<times> int" where
  "norm_down m e = (if m < 2 ^ 52 \<and> - 1074 < e then norm_down (m * 2) (e - 1) else (m, e))"
  by pat_completeness auto
termination
  by (relation "measure (\<lambda>(m, e). nat (e + 1074))") auto

declare norm_up.simps [simp del] norm_down.simps [simp del]

definition round_half_even :: "rat \<Rightarrow> int" where
  "round_half_even m =
     (let f = \<lfloor>m\<rfloor>; d = m - of_int f
      in if d < 1 / 2 then f
         else if 1 / 2 < d then f + 1
         else if even f then f else f + 1)"

definition scale2 :: "int \<Rightarrow> int \<Rightarrow> rat" where
  "scale2 n e = (if 0 \<le> e then of_int n * 2 ^ nat e else of_int n / 2 ^ nat (- e))"

definition round_double :: "rat \<Rightarrow> jsnum" where
  "round_double x =
     (if x = 0 then Num 0
      else
        let (m1, e1) = norm_up \<bar>x\<bar> 0;
            (m2, e2) = norm_down m1 e1;
            r = scale2 (round_half_even m2) e2
        in if 2 ^ 1024 \<le> r then (if 0 < x then PosInf else NegInf)
           else Num (if 0 < x then r else - r))"

fun js_sign :: "jsnum \<Rightarrow> int" where
  "js_sign (Num x) = (if x < 0 then - 1 else if x = 0 then 0 else 1)"
| "js_sign PosInf = 1"
| "js_sign NegInf = - 1"
| "js_sign NaN = 0"

fun js_mul :: "jsnum \<Rightarrow> jsnum \<Rightarrow> jsnum" where
  "js_mul (Num x) (Num y) = round_double (x * y)"
| "js_mul NaN _ = NaN"
| "js_mul _ NaN = NaN"
| "js_mul a b =
     (if js_sign a * js_sign b = 0 then NaN
      else if 0 < js_sign a * js_sign b then PosInf else NegInf)"

fun js_floor :: "jsnum \<Rightarrow> jsnum" where
  "js_floor (Num x) = Num (of_int \<lfloor>x\<rfloor>)"
| "js_floor v = v"

text \<open>A decimal literal of the source denotes the double nearest to its decimal value.\<close>

definition lit_0_9 :: jsnum where
  "lit_0_9 = round_double (9 / 10)"

definition lit_0_8 :: jsnum where
  "lit_0_8 = round_double (8 / 10)"

section \<open>Strings to numbers\<close>

text \<open>
  Configuration strings are byte strings, the UTF-8 encoding of the text.  A string of
  the shape \<open>\d+(\.\d+)?\<close> converts to the double nearest its decimal value.  What
  \<open>Number\<close> yields on any other string (signs, exponents, surrounding blanks, radix
  prefixes, \<open>Infinity\<close>) is a parameter, as are the formatting built-ins
  \<open>toFixed\<close> and \<open>toLocaleString\<close>.
\<close>

record Builtins =
  numberOther :: "string \<Rightarrow> jsnum"
  toFixed :: "rat \<Rightarrow> nat \<Rightarrow> string"
  toLocaleString :: "rat \<Rightarrow> string"

definition decimalDigits :: string where
  "decimalDigits = ''0123456789''"

definition isDigit :: "char \<Rightarrow> bool" where
  "isDigit c = (c \<in> set decimalDigits)"

text \<open>
  The characters that \<open>trim\<close> removes and that \<open>\s\<close> matches are the white space
  and line terminator code points of the language: U+0009 to U+000D, U+0020, U+00A0,
  U+1680, U+2000 to U+200A, U+2028, U+2029, U+202F, U+205F, U+3000 and U+FEFF, each listed
  here by its encoding.
\<close>

definition whiteSpace :: "string list" where
  "whiteSpace =
     [[CHR 0x09], [CHR 0x0A], [CHR 0x0B], [CHR 0x0C], [CHR 0x0D], [CHR 0x20],
      [CHR 0xC2, CHR 0xA0],
      [CHR 0xE1, CHR 0x9A, CHR 0x80],
      [CHR 0xE2, CHR 0x80, CHR 0x80], [CHR 0xE2, CHR 0x80, CHR 0x81],
      [CHR 0xE2, CHR 0x80, CHR 0x82], [CHR 0xE2, CHR 0x80, CHR 0x83],
      [CHR 0xE2, CHR 0x80, CHR 0x84], [CHR 0xE2, CHR 0x80, CHR 0x85],
      [CHR 0xE2, CHR 0x80, CHR 0x86], [CHR 0xE2, CHR 0x80, CHR 0x87],
      [CHR 0xE2, CHR 0x80, CHR 0x88], [CHR 0xE2, CHR 0x80, CHR 0x89],
      [CHR 0xE2, CHR 0x80, CHR 0x8A],
      [CHR 0xE2, CHR 0x80, CHR 0xA8], [CHR 0xE2, CHR 0x80, CHR 0xA9],
      [CHR 0xE2, CHR 0x80, CHR 0xAF],
      [CHR 0xE2, CHR 0x81, CHR 0x9F],
      [CHR 0xE3, CHR 0x80, CHR 0x80],
      [CHR 0xEF, CHR 0xBB, CHR 0xBF]]"

definition startsWith :: "string \<Rightarrow> string \<Rightarrow> bool" where
  "startsWith s t = (t \<noteq> [] \<and> take (length t) s = t)"

text \<open>\<open>skipSpaces ws s\<close> removes from the front of \<open>s\<close> every character listed in \<open>ws\<close>.\<close>

function skipSpaces :: "string list \<Rightarrow> string \<Rightarrow> string" where
  "skipSpaces ws s =
     (case List.find (startsWith s) ws of
        None \<Rightarrow> s
      | Some t \<Rightarrow> skipSpaces ws (drop (length t) s))"
  by pat_completeness auto
termination
proof (relation "measure (\<lambda>(ws, s). length s)")
  show "wf (measure (\<lambda>(ws, s). length s))" by simp
next
  fix ws :: "string list" and s t :: string
  assume "List.find (startsWith s) ws = Some t"
  then have "startsWith s t" by (auto simp: find_Some_iff)
  then have t: "t \<noteq> []" "take (length t) s = t" by (simp_all add: startsWith_def)
  have "length (take (length t) s) \<le> length s" by simp
  with t have "0 < length t" and "length t \<le> length s" by simp_all
  then have "length s - length t < length s" by arith
  then show "((ws, drop (length t) s), (ws, s)) \<in> measure (\<lambda>(ws, s). length s)"
    by simp
qed

declare skipSpaces.simps [simp del]

text \<open>The value of a digit is its position among the decimal digits.\<close>

definition digitValue :: "char \<Rightarrow> nat" where
  "digitValue c = length (takeWhile (\<lambda>d. d \<noteq> c) decimalDigits)"

definition digitsValue :: "string \<Rightarrow> nat" where
  "digitsValue ds = foldl (\<lambda>acc c. 10 * acc + digitValue c) 0 ds"

text \<open>
  \<open>parseDecimal\<close> reads the longest prefix of the shape \<open>\d+(\.\d+)?\<close> and returns its
  decimal value with the rest of the string.
\<close>

definition parseDecimal :: "string \<Rightarrow> (rat \<times> string) option" where
  "parseDecimal s =
     (let ds = takeWhile isDigit s; r = dropWhile isDigit s
      in if ds = [] then None
         else case r of
           c # r' \<Rightarrow>
             (let fs = takeWhile isDigit r'
              in if c = CHR ''.'' \<and> fs \<noteq> []
                 then Some (of_nat (digitsValue ds) + of_nat (digitsValue fs) / 10 ^ length fs,
                            dropWhile isDigit r')
                 else Some (of_nat (digitsValue ds), r))
         | [] \<Rightarrow> Some (of_nat (digitsValue ds), r))"

definition js_Number :: "Builtins \<Rightarrow> string \<Rightarrow> jsnum" where
  "js_Number b s =
     (case parseDecimal s of
        Some (v, []) \<Rightarrow> round_double v
      | _ \<Rightarrow> numberOther b s)"

definition trim :: "string \<Rightarrow> string" where
  "trim s = rev (skipSpaces (map rev whiteSpace) (rev (skipSpaces whiteSpace s)))"

fun toLowerChar :: "char \<Rightarrow> char" where
  "toLowerChar c =
     (if c = CHR ''B'' then CHR ''b'' else if c = CHR ''G'' then CHR ''g''
      else if c = CHR ''K'' then CHR ''k'' else if c = CHR ''M'' then CHR ''m''
      else if c = CHR ''P'' then CHR ''p'' else if c = CHR ''T'' then CHR ''t''
      else c)"

text \<open>The multiplier table of \<open>parseSizeToBytes\<close>, keyed by the lower-cased unit.\<close>

definition multipliers :: "string \<rightharpoonup> jsnum" where
  "multipliers = map_of
     [(''b'', Num 1), (''kb'', Num 1024), (''mb'', Num (1024 ^ 2)), (''gb'', Num (1024 ^ 3)),
      (''tb'', Num (1024 ^ 4)), (''pb'', Num (1024 ^ 5))]"

text \<open>
  \<open>parseSizeToBytes\<close> on a string argument (its only use): the first regular expression
  accepts a bare decimal; the second a decimal, optional blanks and an optional unit, matched
  case-insensitively.  After the first test failed, a match of the second has a unit.
\<close>

definition parseSizeToBytes :: "Builtins \<Rightarrow> string \<Rightarrow> jsnum" where
  "parseSizeToBytes b value =
     (if value = [] then NaN
      else
        let trimmed = trim value
        in case parseDecimal trimmed of
             None \<Rightarrow> NaN
           | Some (amount, rest) \<Rightarrow>
               if rest = [] then round_double amount
               else case multipliers (map toLowerChar (skipSpaces whiteSpace rest)) of
                      None \<Rightarrow> NaN
                    | Some multiplier \<Rightarrow> js_mul (round_double amount) multiplier)"

section \<open>Payloads and metric extraction\<close>

text \<open>
  A parsed JSON payload.  An object is the list of its entries in the order
  \<open>Object.entries\<close> enumerates them; an array is the list of its elements, which
  \<open>Object.entries\<close> enumerates under the decimal index as key.
\<close>

datatype json =
    JNull
  | JBool bool
  | JNum jsnum
  | JStr string
  | JArr "json list"
  | JObj "(string \<times> json) list"

definition digitChar :: "nat \<Rightarrow> char" where
  "digitChar n = decimalDigits ! (n mod 10)"

fun showNat :: "nat \<Rightarrow> string" where
  "showNat n = (if n < 10 then [digitChar n] else showNat (n div 10) @ [digitChar (n mod 10)])"

declare showNat.simps [simp del]

fun typeofObject :: "json \<Rightarrow> bool" where
  "typeofObject JNull = True"
| "typeofObject (JArr _) = True"
| "typeofObject (JObj _) = True"
| "typeofObject _ = False"

text \<open>
  \<open>findFirstNumberByKeys\<close> with its loop over the entries (\<open>findInEntries\<close> for an object,
  \<open>findInIndexed\<close> for an array seen as an object), the loop body (\<open>visitEntry\<close>) and the
  inner loop over the elements of an array-valued entry (\<open>findInItems\<close>).
\<close>

function (sequential) findFirstNumberByKeys :: "json \<Rightarrow> string list \<Rightarrow> jsnum option"
  and findInEntries :: "(string \<times> json) list \<Rightarrow> string list \<Rightarrow> jsnum option"
  and findInIndexed :: "nat \<Rightarrow> json list \<Rightarrow> string list \<Rightarrow> jsnum option"
  and visitEntry :: "string \<Rightarrow> json \<Rightarrow> string list \<Rightarrow> jsnum option"
  and findInItems :: "json list \<Rightarrow> string list \<Rightarrow> jsnum option"
where
  "findFirstNumberByKeys v keys =
     (case v of
        JObj fs \<Rightarrow> findInEntries fs keys
      | JArr xs \<Rightarrow> findInIndexed 0 xs keys
      | _ \<Rightarrow> None)"
| "findInEntries [] keys = None"
| "findInEntries ((key, nested) # rest) keys =
     (case visitEntry key nested keys of
        Some found \<Rightarrow> Some found
      | None \<Rightarrow> findInEntries rest keys)"
| "findInIndexed i [] keys = None"
| "findInIndexed i (nested # rest) keys =
     (case visitEntry (showNat i) nested keys of
        Some found \<Rightarrow> Some found
      | None \<Rightarrow> findInIndexed (Suc i) rest keys)"
| "visitEntry key nested keys =
     (case (case nested of
              JNum x \<Rightarrow> if key \<in> set keys \<and> isFinite x then Some x else None
            | _ \<Rightarrow> None) of
        Some found \<Rightarrow> Some found
      | None \<Rightarrow>
          (case (if typeofObject nested then findFirstNumberByKeys nested keys else None) of
             Some candidate \<Rightarrow> Some candidate
           | None \<Rightarrow>
               (case nested of
                  JArr items \<Rightarrow> findInItems items keys
                | _ \<Rightarrow> None)))"
| "findInItems [] keys = None"
| "findInItems (item # items) keys =
     (case findFirstNumberByKeys item keys of
        Some candidate \<Rightarrow> Some candidate
      | None \<Rightarrow> findInItems items keys)"
  by pat_completeness auto
termination
  by (relation "measure (\<lambda>x. case x of
        Inl (Inl (v, _)) \<Rightarrow> 2 * size v
      | Inl (Inr (fs, _)) \<Rightarrow> 2 * size (JObj fs) - 1
      | Inr (Inl (_, xs, _)) \<Rightarrow> 2 * size (JArr xs) - 1
      | Inr (Inr (Inl (_, v, _))) \<Rightarrow> 2 * size v + 1
      | Inr (Inr (Inr (xs, _))) \<Rightarrow> 2 * size (JArr xs) - 1)") auto

text \<open>The property \<open>result\<close> of a payload: absent on anything but an object that has it.\<close>

fun getResult :: "json \<Rightarrow> json option" where
  "getResult (JObj fs) = map_of fs ''result''"
| "getResult _ = None"

fun extractMetric :: "json \<Rightarrow> string list \<Rightarrow> jsnum option" where
  "extractMetric (JNum x) keys = (if isFinite x then Some x else None)"
| "extractMetric JNull keys = None"
| "extractMetric (JBool _) keys = None"
| "extractMetric (JStr _) keys = None"
| "extractMetric payload keys =
     (let maybeResult = (case getResult payload of
                           None \<Rightarrow> payload
                         | Some JNull \<Rightarrow> payload
                         | Some r \<Rightarrow> r)
      in findFirstNumberByKeys maybeResult keys)"

definition CANDIDATE_USAGE_KEYS :: "string list" where
  "CANDIDATE_USAGE_KEYS =
     [''usageBytes'', ''usage_bytes'', ''used_bytes'', ''storedBytes'', ''stored_bytes'',
      ''storageBytes'', ''storage_bytes'', ''storageUsageBytes'', ''size_bytes'', ''sizeBytes'',
      ''total_usage_bytes'', ''totalUsageBytes'']"

definition CANDIDATE_CLASS_A_KEYS :: "string list" where
  "CANDIDATE_CLASS_A_KEYS =
     [''classARequests'', ''class_a_requests'', ''classAOperations'', ''class_a_operations'',
      ''classA_ops'', ''class_a_ops'', ''classA'', ''requestsClassA'', ''request_class_a'']"

definition CANDIDATE_CLASS_B_KEYS :: "string list" where
  "CANDIDATE_CLASS_B_KEYS =
     [''classBRequests'', ''class_b_requests'', ''classBOperations'', ''class_b_operations'',
      ''classB_ops'', ''class_b_ops'', ''classB'', ''requestsClassB'', ''request_class_b'']"

definition extractUsageBytes :: "json \<Rightarrow> jsnum option" where
  "extractUsageBytes payload = extractMetric payload CANDIDATE_USAGE_KEYS"

definition extractClassARequests :: "json \<Rightarrow> jsnum option" where
  "extractClassARequests payload = extractMetric payload CANDIDATE_CLASS_A_KEYS"

definition extractClassBRequests :: "json \<Rightarrow> jsnum option" where
  "extractClassBRequests payload = extractMetric payload CANDIDATE_CLASS_B_KEYS"

section \<open>Errors and warnings\<close>

text \<open>
  One constructor for each \<open>throw\<close> of the worker, carrying what the message
  interpolates, and two for the failures of the platform calls: a \<open>fetch\<close> that rejects
  and a response body that does not parse as JSON.
\<close>

datatype error =
    MissingAccountId
  | MissingApiToken
  | MissingAccessKeyId
  | InvalidReenable
  | InvalidQuotaSize
  | InvalidNumericQuota
  | UsageRequestFailed nat string
  | NoUsageMetrics
  | AccessKeyRequestFailed nat string
  | AccessKeyUpdateFailed nat string string
  | FetchRejected
  | BodyNotJson

section \<open>Threshold resolution\<close>

definition parseOptionalSize :: "Builtins \<Rightarrow> string option \<Rightarrow> error + jsnum option" where
  "parseOptionalSize b value =
     (case value of
        None \<Rightarrow> Inr None
      | Some v \<Rightarrow>
          if v = [] then Inr None
          else
            let parsed = parseSizeToBytes b v
            in if \<not> isFinite parsed \<or> js_le parsed (Num 0) then Inl InvalidQuotaSize
               else Inr (Some parsed))"

definition parseOptionalNumber :: "Builtins \<Rightarrow> string option \<Rightarrow> jsnum option \<Rightarrow> error + jsnum option" where
  "parseOptionalNumber b value defaultValue =
     (case value of
        None \<Rightarrow> Inr defaultValue
      | Some v \<Rightarrow>
          if v = [] then Inr defaultValue
          else
            let parsed = js_Number b v
            in if \<not> isFinite parsed \<or> js_le parsed (Num 0) then Inl InvalidNumericQuota
               else Inr (Some parsed))"

text \<open>
  \<open>determineReenable\<close> either throws or returns a threshold; on the clamping path it also
  writes one line with \<open>console.warn\<close>.  The result is the list of warnings written
  together with the outcome.
\<close>

definition warn_reenable_high :: string where
  "warn_reenable_high = ''Re-enable threshold higher than quota; adjusting to 90% of quota''"

fun determineReenable :: "jsnum option \<Rightarrow> jsnum option \<Rightarrow> string list \<times> (error + jsnum option)" where
  "determineReenable quota (Some override) =
     (if \<not> isFinite override \<or> js_lt override (Num 0) then ([], Inl InvalidReenable)
      else case quota of
        Some q \<Rightarrow>
          if js_gt override q then ([warn_reenable_high], Inr (Some (js_floor (js_mul q lit_0_9))))
          else ([], Inr (Some override))
      | None \<Rightarrow> ([], Inr (Some override)))"
| "determineReenable None None = ([], Inr None)"
| "determineReenable (Some q) None = ([], Inr (Some (js_floor (js_mul q lit_0_8))))"

section \<open>Metrics and formatting\<close>

datatype AccessKeyStatus = enabled | disabled

datatype MetricName = storage | classA | classB

text \<open>
  \<open>MetricThreshold\<close> has the four fields of \<open>ThresholdSnapshot\<close> and the formatter, so
  it is the extension of that record, and the snapshot the controller returns is its
  truncation.
\<close>

record ThresholdSnapshot =
  name :: MetricName
  usage :: "jsnum option"
  quota :: "jsnum option"
  reenable :: "jsnum option"

record MetricThreshold = ThresholdSnapshot +
  formatter :: "jsnum option \<Rightarrow> string"

text \<open>
  The unit loop of \<open>formatBytes\<close>.  Dividing a double that is at least 1024 by 1024 is
  exact, so the division is the rational one.
\<close>

function scaleLoop :: "rat \<Rightarrow> nat \<Rightarrow> rat \<times> nat" where
  "scaleLoop v unitIndex =
     (if 1024 \<le> v \<and> unitIndex < 5 then scaleLoop (v / 1024) (unitIndex + 1) else (v, unitIndex))"
  by pat_completeness auto
termination
  by (relation "measure (\<lambda>(v, i). 5 - i)") auto

declare scaleLoop.simps [simp del]

definition units :: "string list" where
  "units = [''B'', ''KB'', ''MB'', ''GB'', ''TB'', ''PB'']"

definition formatBytes :: "Builtins \<Rightarrow> jsnum \<Rightarrow> string" where
  "formatBytes b bytes =
     (case bytes of
        Num x \<Rightarrow>
          (let (v, unitIndex) = scaleLoop x 0
           in toFixed b v (if unitIndex = 0 then 0 else 2) @ '' '' @ units ! unitIndex)
      | _ \<Rightarrow> ''unknown'')"

definition formatBytesOptional :: "Builtins \<Rightarrow> jsnum option \<Rightarrow> string" where
  "formatBytesOptional b v = (case v of None \<Rightarrow> ''unknown'' | Some x \<Rightarrow> formatBytes b x)"

definition formatInteger :: "Builtins \<Rightarrow> jsnum option \<Rightarrow> string" where
  "formatInteger b v = (case v of Some (Num x) \<Rightarrow> toLocaleString b x | _ \<Rightarrow> ''unknown'')"

fun describeMetric :: "MetricName \<Rightarrow> string" where
  "describeMetric storage = ''Storage''"
| "describeMetric classA = ''Class A requests''"
| "describeMetric classB = ''Class B requests''"

fun statusText :: "AccessKeyStatus \<Rightarrow> string" where
  "statusText enabled = ''enabled''"
| "statusText disabled = ''disabled''"

fun join :: "string \<Rightarrow> string list \<Rightarrow> string" where
  "join sep [] = []"
| "join sep [x] = x"
| "join sep (x # y # rest) = x @ sep @ join sep (y # rest)"

section \<open>Configuration\<close>

record Env =
  CF_ACCOUNT_ID :: string
  CF_API_TOKEN :: string
  R2_ACCESS_KEY_ID :: string
  QUOTA_BYTES :: "string option"
  REENABLE_THRESHOLD :: "string option"
  CLASS_A_QUOTA :: "string option"
  CLASS_A_REENABLE_THRESHOLD :: "string option"
  CLASS_B_QUOTA :: "string option"
  CLASS_B_REENABLE_THRESHOLD :: "string option"

text \<open>
  \<open>normaliseThresholds\<close> parses the six settings in the source's order, then resolves the
  three re-enable thresholds; the first failure ends it, after the warnings written so far.
\<close>

definition normaliseThresholds :: "Builtins \<Rightarrow> Env \<Rightarrow> string list \<times> (error + MetricThreshold list)" where
  "normaliseThresholds b env =
     (case parseOptionalSize b (QUOTA_BYTES env) of Inl e \<Rightarrow> ([], Inl e) | Inr storageQuota \<Rightarrow>
      case parseOptionalSize b (REENABLE_THRESHOLD env) of Inl e \<Rightarrow> ([], Inl e) | Inr storageReenable \<Rightarrow>
      case parseOptionalNumber b (CLASS_A_QUOTA env) (Some (Num 1000000)) of Inl e \<Rightarrow> ([], Inl e) | Inr quotaA \<Rightarrow>
      case parseOptionalNumber b (CLASS_A_REENABLE_THRESHOLD env) None of Inl e \<Rightarrow> ([], Inl e) | Inr reenableA \<Rightarrow>
      case parseOptionalNumber b (CLASS_B_QUOTA env) (Some (Num 10000000)) of Inl e \<Rightarrow> ([], Inl e) | Inr quotaB \<Rightarrow>
      case parseOptionalNumber b (CLASS_B_REENABLE_THRESHOLD env) None of Inl e \<Rightarrow> ([], Inl e) | Inr reenableB \<Rightarrow>
      case determineReenable storageQuota storageReenable of (w1, Inl e) \<Rightarrow> (w1, Inl e) | (w1, Inr r1) \<Rightarrow>
      case determineReenable quotaA reenableA of (w2, Inl e) \<Rightarrow> (w1 @ w2, Inl e) | (w2, Inr r2) \<Rightarrow>
      case determineReenable quotaB reenableB of (w3, Inl e) \<Rightarrow> (w1 @ w2 @ w3, Inl e) | (w3, Inr r3) \<Rightarrow>
        (w1 @ w2 @ w3,
         Inr [\<lparr>name = storage, usage = None, quota = storageQuota, reenable = r1,
                formatter = formatBytesOptional b\<rparr>,
              \<lparr>name = classA, usage = None, quota = quotaA, reenable = r2,
                formatter = formatInteger b\<rparr>,
              \<lparr>name = classB, usage = None, quota = quotaB, reenable = r3,
                formatter = formatInteger b\<rparr>]))"

section \<open>The hysteresis evaluator\<close>

text \<open>
  The loop of \<open>runQuotaController\<close> over the thresholds, with its two accumulators
  \<open>overQuotaReasons\<close> and \<open>reenableChecks\<close>.
\<close>

fun reasonsLoop :: "MetricThreshold list \<Rightarrow> string list \<Rightarrow> string list \<Rightarrow> string list \<times> string list" where
  "reasonsLoop [] overQuotaReasons reenableChecks = (overQuotaReasons, reenableChecks)"
| "reasonsLoop (metric # rest) overQuotaReasons reenableChecks =
     (let over' =
            (case (quota metric, usage metric) of
               (Some q, Some u) \<Rightarrow>
                 if js_ge u q
                 then overQuotaReasons @
                      [describeMetric (name metric) @ '' '' @ formatter metric (usage metric) @
                       '' exceeds quota '' @ formatter metric (quota metric)]
                 else overQuotaReasons
             | _ \<Rightarrow> overQuotaReasons);
          checks' =
            (case (reenable metric, usage metric) of
               (Some r, Some u) \<Rightarrow>
                 if js_le u r
                 then reenableChecks @
                      [describeMetric (name metric) @ '' '' @ formatter metric (usage metric) @
                       '' <= '' @ formatter metric (reenable metric)]
                 else reenableChecks @
                      [describeMetric (name metric) @ '' '' @ formatter metric (usage metric) @
                       '' > '' @ formatter metric (reenable metric)]
             | _ \<Rightarrow> reenableChecks)
      in reasonsLoop rest over' checks')"

definition shouldReenable :: "MetricThreshold list \<Rightarrow> bool" where
  "shouldReenable thresholds =
     list_all (\<lambda>metric. case (reenable metric, usage metric) of
                           (Some r, Some u) \<Rightarrow> js_le u r
                         | _ \<Rightarrow> True) thresholds"

text \<open>
  The decision of \<open>runQuotaController\<close>: the desired status with the two reason lists.
\<close>

definition evaluate :: "AccessKeyStatus \<Rightarrow> MetricThreshold list \<Rightarrow> AccessKeyStatus \<times> string list \<times> string list" where
  "evaluate currentStatus thresholds =
     (let (overQuotaReasons, reenableChecks) = reasonsLoop thresholds [] [];
          desiredStatus =
            (if 0 < length overQuotaReasons then disabled
             else if shouldReenable thresholds then enabled
             else currentStatus)
      in (desiredStatus, overQuotaReasons, reenableChecks))"

definition buildStatusMessage :: "AccessKeyStatus \<Rightarrow> AccessKeyStatus \<Rightarrow> string list \<Rightarrow> string list \<Rightarrow> string" where
  "buildStatusMessage desired current overQuotaReasons reenableChecks =
     (if desired = disabled \<and> 0 < length overQuotaReasons
      then ''Disabling access key: '' @ join ''; '' overQuotaReasons @ ''.''
      else if desired = enabled \<and> current = disabled
      then ''Re-enabling access key: '' @ join ''; '' reenableChecks @ ''.''
      else ''Keeping access key '' @ statusText current @ ''. Metrics: '' @
           (let joined = join ''; '' (overQuotaReasons @ reenableChecks)
            in if joined = [] then ''no thresholds configured'' else joined) @ ''.'')"

section \<open>Collaborators and state\<close>

record UsageSnapshot =
  storageBytes :: "jsnum option"
  classARequests :: "jsnum option"
  classBRequests :: "jsnum option"

record StoredState =
  accessKeyStatus :: AccessKeyStatus
  lastUsageBytes :: "jsnum option"
  quotaBytes :: "jsnum option"
  reenableThresholdBytes :: "jsnum option"
  lastClassARequests :: "jsnum option"
  classAQuota :: "jsnum option"
  classAReenableThreshold :: "jsnum option"
  lastClassBRequests :: "jsnum option"
  classBQuota :: "jsnum option"
  classBReenableThreshold :: "jsnum option"
  updatedAt :: string
  message :: string

text \<open>
  A field name is a constant of the theory, so the fields \<open>accessKeyStatus\<close>,
  \<open>usage\<close>, \<open>updatedAt\<close> and \<open>message\<close> of \<open>RunResult\<close> carry the prefix
  \<open>result\<close>, and the \<open>status\<close> of the access-key payload is \<open>keyStatus\<close>.
\<close>

record RunResult =
  success :: bool
  resultStatus :: AccessKeyStatus
  resultUsage :: UsageSnapshot
  thresholds :: "ThresholdSnapshot list"
  resultUpdatedAt :: string
  resultMessage :: string

text \<open>
  An HTTP response as the worker reads it: \<open>ok\<close>, \<open>status\<close>, \<open>statusText\<close> and the
  body, which for \<open>response.json()\<close> either fails to parse or is a value.  The body of the
  access-key response has the shape the source declares for it,
  \<open>{ result?: { status?: AccessKeyStatus } }\<close>, or is \<open>null\<close>.
\<close>

record 'a Response =
  ok :: bool
  status :: nat
  statusText :: string
  body :: 'a

datatype 'a parsed = NotJson | Json 'a

record KeyResult =
  keyStatus :: "AccessKeyStatus option"

record KeyPayload =
  result :: "KeyResult option"

text \<open>
  What the collaborators answer during one invocation (\<open>None\<close>: the \<open>fetch\<close> rejects),
  and the clock.
\<close>

record Remote =
  usageResponse :: "json parsed Response option"
  accessKeyResponse :: "KeyPayload option parsed Response option"
  patchResponse :: "AccessKeyStatus \<Rightarrow> string Response option"
  now :: string

datatype Call =
    FetchUsage
  | KvGet
  | FetchAccessKey
  | PatchAccessKey AccessKeyStatus
  | KvPut StoredState
  | ConsoleWarn string

text \<open>
  The state an invocation acts on: the value stored in the KV namespace under
  \<open>STATE_KEY\<close> (the namespace is taken to answer every \<open>get\<close> and \<open>put\<close>), and the
  trace of the external calls made so far.
\<close>

record World =
  kv :: "StoredState option"
  calls :: "Call list"

definition logCall :: "Call \<Rightarrow> World \<Rightarrow> World" where
  "logCall c w = w\<lparr>calls := calls w @ [c]\<rparr>"

definition fetchR2Usage :: "Remote \<Rightarrow> World \<Rightarrow> (error + UsageSnapshot) \<times> World" where
  "fetchR2Usage remote w =
     (let w1 = logCall FetchUsage w
      in case usageResponse remote of
           None \<Rightarrow> (Inl FetchRejected, w1)
         | Some response \<Rightarrow>
             if \<not> ok response
             then (Inl (UsageRequestFailed (status response) (statusText response)), w1)
             else case body response of
                    NotJson \<Rightarrow> (Inl BodyNotJson, w1)
                  | Json payload \<Rightarrow>
                      (let u = \<lparr>storageBytes = extractUsageBytes payload,
                                 classARequests = extractClassARequests payload,
                                 classBRequests = extractClassBRequests payload\<rparr>
                       in if storageBytes u = None \<and> classARequests u = None \<and>
                             classBRequests u = None
                          then (Inl NoUsageMetrics, w1)
                          else (Inr u, w1)))"

definition fetchAccessKeyStatus :: "Remote \<Rightarrow> World \<Rightarrow> (error + AccessKeyStatus) \<times> World" where
  "fetchAccessKeyStatus remote w =
     (let w1 = logCall FetchAccessKey w
      in case accessKeyResponse remote of
           None \<Rightarrow> (Inl FetchRejected, w1)
         | Some response \<Rightarrow>
             if \<not> ok response
             then (Inl (AccessKeyRequestFailed (status response) (statusText response)), w1)
             else case body response of
                    NotJson \<Rightarrow> (Inl BodyNotJson, w1)
                  | Json payload \<Rightarrow>
                      (case Option.bind (Option.bind payload result) keyStatus of
                         Some st \<Rightarrow> (Inr st, w1)
                       | None \<Rightarrow> (Inr enabled, w1)))"

definition updateAccessKeyStatus :: "Remote \<Rightarrow> AccessKeyStatus \<Rightarrow> World \<Rightarrow> (error + unit) \<times> World" where
  "updateAccessKeyStatus remote st w =
     (let w1 = logCall (PatchAccessKey st) w
      in case patchResponse remote st of
           None \<Rightarrow> (Inl FetchRejected, w1)
         | Some response \<Rightarrow>
             if \<not> ok response
             then (Inl (AccessKeyUpdateFailed (status response) (statusText response)
                          (body response)), w1)
             else (Inr (), w1))"

definition kvPut :: "StoredState \<Rightarrow> World \<Rightarrow> World" where
  "kvPut st w = logCall (KvPut st) (w\<lparr>kv := Some st\<rparr>)"

section \<open>The controller\<close>

definition assignUsage :: "UsageSnapshot \<Rightarrow> MetricThreshold \<Rightarrow> MetricThreshold" where
  "assignUsage u metric =
     (case name metric of
        storage \<Rightarrow> metric\<lparr>usage := storageBytes u\<rparr>
      | classA \<Rightarrow> metric\<lparr>usage := classARequests u\<rparr>
      | classB \<Rightarrow> metric\<lparr>usage := classBRequests u\<rparr>)"

text \<open>
  The current status (\<open>storedState?.accessKeyStatus ?? (await fetchAccessKeyStatus(env))\<close>):
  the stored one, and the live one only when nothing is stored.
\<close>

definition currentStatusOf :: "Remote \<Rightarrow> StoredState option \<Rightarrow> World \<Rightarrow> (error + AccessKeyStatus) \<times> World" where
  "currentStatusOf remote storedState w =
     (case storedState of
        Some st \<Rightarrow> (Inr (accessKeyStatus st), w)
      | None \<Rightarrow> fetchAccessKeyStatus remote w)"

text \<open>
  The first part of \<open>runQuotaController\<close>, up to the current status: the three checks of
  the identifiers, the usage request and the read of the stored state (both are issued, then
  both awaited), the thresholds with the usage filled in, and the current status.
\<close>

definition gatherInputs :: "Builtins \<Rightarrow> Env \<Rightarrow> Remote \<Rightarrow> World \<Rightarrow>
    (error + UsageSnapshot \<times> MetricThreshold list \<times> AccessKeyStatus) \<times> World" where
  "gatherInputs b env remote w =
     (if CF_ACCOUNT_ID env = [] then (Inl MissingAccountId, w)
      else if CF_API_TOKEN env = [] then (Inl MissingApiToken, w)
      else if R2_ACCESS_KEY_ID env = [] then (Inl MissingAccessKeyId, w)
      else
        case fetchR2Usage remote w of (fetched, w1) \<Rightarrow>
        let w2 = logCall KvGet w1; storedState = kv w2
        in case fetched of
             Inl e \<Rightarrow> (Inl e, w2)
           | Inr u \<Rightarrow>
               (case normaliseThresholds b env of (warnings, resolved) \<Rightarrow>
                let w3 = w2\<lparr>calls := calls w2 @ map ConsoleWarn warnings\<rparr>
                in case resolved of
                     Inl e \<Rightarrow> (Inl e, w3)
                   | Inr ts \<Rightarrow>
                       (case currentStatusOf remote storedState w3 of
                          (Inl e, w4) \<Rightarrow> (Inl e, w4)
                        | (Inr currentStatus, w4) \<Rightarrow>
                            (Inr (u, map (assignUsage u) ts, currentStatus), w4))))"

definition findThreshold :: "MetricName \<Rightarrow> MetricThreshold list \<Rightarrow> MetricThreshold option" where
  "findThreshold n ts = List.find (\<lambda>t. name t = n) ts"

definition runQuotaController :: "Builtins \<Rightarrow> Env \<Rightarrow> Remote \<Rightarrow> World \<Rightarrow> (error + RunResult) \<times> World" where
  "runQuotaController b env remote w =
     (case gatherInputs b env remote w of
        (Inl e, w1) \<Rightarrow> (Inl e, w1)
      | (Inr (u, ts, currentStatus), w1) \<Rightarrow>
          (case evaluate currentStatus ts of (desiredStatus, overQuotaReasons, reenableChecks) \<Rightarrow>
           case (if desiredStatus \<noteq> currentStatus
                 then updateAccessKeyStatus remote desiredStatus w1
                 else (Inr (), w1)) of
             (Inl e, w2) \<Rightarrow> (Inl e, w2)
           | (Inr _, w2) \<Rightarrow>
               (let msg = buildStatusMessage desiredStatus currentStatus overQuotaReasons
                            reenableChecks;
                    thresholdSnapshot = map ThresholdSnapshot.truncate ts;
                    st = \<lparr>accessKeyStatus = desiredStatus,
                          lastUsageBytes = storageBytes u,
                          quotaBytes = Option.bind (findThreshold storage ts) quota,
                          reenableThresholdBytes = Option.bind (findThreshold storage ts) reenable,
                          lastClassARequests = classARequests u,
                          classAQuota = Option.bind (findThreshold classA ts) quota,
                          classAReenableThreshold = Option.bind (findThreshold classA ts) reenable,
                          lastClassBRequests = classBRequests u,
                          classBQuota = Option.bind (findThreshold classB ts) quota,
                          classBReenableThreshold = Option.bind (findThreshold classB ts) reenable,
                          updatedAt = now remote,
                          message = msg\<rparr>;
                    w3 = kvPut st w2
                in (Inr \<lparr>success = True, resultStatus = desiredStatus, resultUsage = u,
                         thresholds = thresholdSnapshot, resultUpdatedAt = now remote,
                         resultMessage = msg\<rparr>, w3))))"

section \<open>Vocabulary of the properties\<close>

text \<open>
  A metric is over quota when quota and usage are both present and the usage has reached the
  quota; it has a re-enable check when threshold and usage are both present.  A metric is
  inert when it contributes to neither: its usage is absent, or both of its thresholds are.
\<close>

definition overQuota :: "MetricThreshold \<Rightarrow> bool" where
  "overQuota metric =
     (case (quota metric, usage metric) of (Some q, Some u) \<Rightarrow> js_ge u q | _ \<Rightarrow> False)"

definition hasCheck :: "MetricThreshold \<Rightarrow> bool" where
  "hasCheck metric = (reenable metric \<noteq> None \<and> usage metric \<noteq> None)"

definition inert :: "MetricThreshold \<Rightarrow> bool" where
  "inert metric = (usage metric = None \<or> (quota metric = None \<and> reenable metric = None))"

text \<open>The metric of the hysteresis-band scenario, and a metric with nothing configured.\<close>

definition governed :: "MetricName \<Rightarrow> (jsnum option \<Rightarrow> string) \<Rightarrow> rat \<Rightarrow> MetricThreshold" where
  "governed n f u =
     \<lparr>name = n, usage = Some (Num u), quota = Some (Num 100), reenable = Some (Num 80),
      formatter = f\<rparr>"

definition unconfigured :: "MetricName \<Rightarrow> (jsnum option \<Rightarrow> string) \<Rightarrow> MetricThreshold" where
  "unconfigured n f = \<lparr>name = n, usage = None, quota = None, reenable = None, formatter = f\<rparr>"

text \<open>The message \<open>runQuotaController\<close> builds from the decision.\<close>

definition decisionMessage :: "AccessKeyStatus \<Rightarrow> MetricThreshold list \<Rightarrow> string" where
  "decisionMessage cur ts =
     (case evaluate cur ts of
        (desired, over, checks) \<Rightarrow> buildStatusMessage desired cur over checks)"

text \<open>
  A fixed choice of the built-ins, for evaluating the worker on concrete inputs: every string
  that is not a plain decimal converts to \<open>NaN\<close>, and numbers print as \<open>#\<close>.
\<close>

definition sampleBuiltins :: Builtins where
  "sampleBuiltins =
     \<lparr>numberOther = (\<lambda>s. NaN), toFixed = (\<lambda>v d. ''#''), toLocaleString = (\<lambda>v. ''#'')\<rparr>"

definition fmtB :: "jsnum option \<Rightarrow> string" where
  "fmtB = formatBytesOptional sampleBuiltins"

definition fmtI :: "jsnum option \<Rightarrow> string" where
  "fmtI = formatInteger sampleBuiltins"

text \<open>The external calls of interest in a trace, and a toggle call that fails.\<close>

fun isPatch :: "Call \<Rightarrow> bool" where
  "isPatch (PatchAccessKey _) = True"
| "isPatch _ = False"

fun isKvPut :: "Call \<Rightarrow> bool" where
  "isKvPut (KvPut _) = True"
| "isKvPut _ = False"

definition patchCalls :: "World \<Rightarrow> Call list" where
  "patchCalls w = filter isPatch (calls w)"

definition putCalls :: "World \<Rightarrow> Call list" where
  "putCalls w = filter isKvPut (calls w)"

definition toggleFails :: "Remote \<Rightarrow> AccessKeyStatus \<Rightarrow> bool" where
  "toggleFails remote st =
     (case patchResponse remote st of None \<Rightarrow> True | Some r \<Rightarrow> \<not> ok r)"

subsection \<open>Extraction as a search in traversal order\<close>

text \<open>
  The depth-first traversal of a payload: every value that is an entry of an object or an
  element of an array, in pre-order, with its owner (the field name, or the index in the
  array).  \<open>pick\<close> returns the first finite number in such a list whose owner is wanted.
\<close>

datatype owner = Field string | Index nat

function (sequential) walk :: "json \<Rightarrow> (owner \<times> json) list"
  and walkEntries :: "(string \<times> json) list \<Rightarrow> (owner \<times> json) list"
  and walkItems :: "nat \<Rightarrow> json list \<Rightarrow> (owner \<times> json) list"
where
  "walk v =
     (case v of
        JObj fs \<Rightarrow> walkEntries fs
      | JArr xs \<Rightarrow> walkItems 0 xs
      | _ \<Rightarrow> [])"
| "walkEntries [] = []"
| "walkEntries ((k, v) # rest) = (Field k, v) # walk v @ walkEntries rest"
| "walkItems i [] = []"
| "walkItems i (v # rest) = (Index i, v) # walk v @ walkItems (Suc i) rest"
  by pat_completeness auto
termination
  by (relation "measure (\<lambda>x. case x of
        Inl v \<Rightarrow> 2 * size v
      | Inr (Inl fs) \<Rightarrow> 2 * size (JObj fs) - 1
      | Inr (Inr (_, xs)) \<Rightarrow> 2 * size (JArr xs) - 1)") auto

fun itemsWalk :: "json list \<Rightarrow> (owner \<times> json) list" where
  "itemsWalk [] = []"
| "itemsWalk (v # rest) = walk v @ itemsWalk rest"

fun pick :: "(owner \<Rightarrow> bool) \<Rightarrow> (owner \<times> json) list \<Rightarrow> jsnum option" where
  "pick wanted [] = None"
| "pick wanted ((ow, v) # rest) =
     (case v of
        JNum x \<Rightarrow> if wanted ow \<and> isFinite x then Some x else pick wanted rest
      | _ \<Rightarrow> pick wanted rest)"

fun hit :: "(owner \<Rightarrow> bool) \<Rightarrow> owner \<times> json \<Rightarrow> bool" where
  "hit wanted (ow, v) = (case v of JNum x \<Rightarrow> wanted ow \<and> isFinite x | _ \<Rightarrow> False)"

text \<open>
  The owners the claim counts (a field whose name is a candidate key), and the owners the code
  counts (also an array element whose decimal index is a candidate key).
\<close>

fun fieldIn :: "string list \<Rightarrow> owner \<Rightarrow> bool" where
  "fieldIn keys (Field k) = (k \<in> set keys)"
| "fieldIn keys (Index i) = False"

fun fieldOrIndexIn :: "string list \<Rightarrow> owner \<Rightarrow> bool" where
  "fieldOrIndexIn keys (Field k) = (k \<in> set keys)"
| "fieldOrIndexIn keys (Index i) = (showNat i \<in> set keys)"

text \<open>
  Extraction as claim C9 words it: the traversal starts from \<open>result\<close> whenever the payload
  has that field, and only fields own values.
\<close>

definition extractMetric_stated :: "json \<Rightarrow> string list \<Rightarrow> jsnum option" where
  "extractMetric_stated payload keys =
     pick (fieldIn keys) (walk (case getResult payload of None \<Rightarrow> payload | Some r \<Rightarrow> r))"

text \<open>
  Extraction as amended: a payload that is a number is returned when finite; the traversal
  starts from \<open>result\<close> when that field is present and not \<open>null\<close>; an array element is
  owned by its decimal index.
\<close>

definition extractMetric_amended :: "json \<Rightarrow> string list \<Rightarrow> jsnum option" where
  "extractMetric_amended payload keys =
     (case payload of
        JNum x \<Rightarrow> if isFinite x then Some x else None
      | _ \<Rightarrow>
        pick (fieldOrIndexIn keys)
          (walk (case getResult payload of
                   None \<Rightarrow> payload
                 | Some JNull \<Rightarrow> payload
                 | Some r \<Rightarrow> r)))"

text \<open>The first test of the loop body of \<open>findFirstNumberByKeys\<close>, and sequencing of searches.\<close>

definition ownValue :: "string \<Rightarrow> json \<Rightarrow> string list \<Rightarrow> jsnum option" where
  "ownValue key nested keys =
     (case nested of
        JNum x \<Rightarrow> if key \<in> set keys \<and> isFinite x then Some x else None
      | _ \<Rightarrow> None)"

definition orElse :: "'a option \<Rightarrow> 'a option \<Rightarrow> 'a option" where
  "orElse a b = (case a of Some x \<Rightarrow> Some x | None \<Rightarrow> b)"

subsection \<open>Concrete inputs\<close>

text \<open>
  A configuration with the three identifiers set, a usage payload in the provider's envelope,
  responses, a stored state and a world, for evaluating the worker on concrete inputs.
\<close>

definition sampleEnv :: "string option \<Rightarrow> string option \<Rightarrow> string option \<Rightarrow> Env" where
  "sampleEnv q r ra =
     \<lparr>CF_ACCOUNT_ID = ''account'', CF_API_TOKEN = ''token'', R2_ACCESS_KEY_ID = ''key'',
      QUOTA_BYTES = q, REENABLE_THRESHOLD = r, CLASS_A_QUOTA = None,
      CLASS_A_REENABLE_THRESHOLD = ra, CLASS_B_QUOTA = None,
      CLASS_B_REENABLE_THRESHOLD = None\<rparr>"

definition usagePayload :: "rat \<Rightarrow> rat \<Rightarrow> rat \<Rightarrow> json" where
  "usagePayload s a b =
     JObj [(''result'', JObj [(''usageBytes'', JNum (Num s)), (''classARequests'', JNum (Num a)),
                              (''classBRequests'', JNum (Num b))])]"

text \<open>A payload that reports the storage usage and neither operation count.\<close>

definition storageOnlyPayload :: json where
  "storageOnlyPayload = JObj [(''result'', JObj [(''usageBytes'', JNum (Num 5))])]"

definition okResponse :: "'a \<Rightarrow> 'a Response" where
  "okResponse x = \<lparr>ok = True, status = 200, statusText = ''OK'', body = x\<rparr>"

definition errorResponse :: "'a \<Rightarrow> 'a Response" where
  "errorResponse x = \<lparr>ok = False, status = 500, statusText = ''Internal Server Error'', body = x\<rparr>"

definition sampleRemote :: "json \<Rightarrow> bool \<Rightarrow> Remote" where
  "sampleRemote payload patchOk =
     \<lparr>usageResponse = Some (okResponse (Json payload)),
      accessKeyResponse = Some (okResponse (Json (Some \<lparr>result = Some \<lparr>keyStatus = None\<rparr>\<rparr>))),
      patchResponse = (\<lambda>st. Some (if patchOk then okResponse [] else errorResponse [])),
      now = ''2024-01-01T00:00:00.000Z''\<rparr>"

definition storedAs :: "AccessKeyStatus \<Rightarrow> StoredState" where
  "storedAs st =
     \<lparr>accessKeyStatus = st, lastUsageBytes = None, quotaBytes = None,
      reenableThresholdBytes = None, lastClassARequests = None, classAQuota = None,
      classAReenableThreshold = None, lastClassBRequests = None, classBQuota = None,
      classBReenableThreshold = None, updatedAt = ''2023-12-31T23:45:00.000Z'', message = []\<rparr>"

definition worldWith :: "StoredState option \<Rightarrow> World" where
  "worldWith st = \<lparr>kv = st, calls = []\<rparr>"

text \<open>The status an invocation returns, when it returns one.\<close>

definition statusOf :: "(error + RunResult) \<times> World \<Rightarrow> AccessKeyStatus option" where
  "statusOf r = (case fst r of Inr res \<Rightarrow> Some (resultStatus res) | Inl _ \<Rightarrow> None)"

section \<open>The evaluator decides by over-quota and re-enable checks\<close>

lemma reasonsLoop_over_empty:
  "fst (reasonsLoop ts over checks) = [] \<longleftrightarrow> over = [] \<and> (\<forall>m\<in>set ts. \<not> overQuota m)"
  by (induction ts arbitrary: over checks)
     (auto simp: overQuota_def Let_def split: option.splits)

lemma reasonsLoop_checks_empty:
  "snd (reasonsLoop ts over checks) = [] \<longleftrightarrow> checks = [] \<and> (\<forall>m\<in>set ts. \<not> hasCheck m)"
  by (induction ts arbitrary: over checks)
     (auto simp: hasCheck_def Let_def split: option.splits)

lemma evaluate_status:
  "fst (evaluate cur ts) =
     (if \<exists>m\<in>set ts. overQuota m then disabled
      else if shouldReenable ts then enabled else cur)"
proof -
  obtain ov ch where r: "reasonsLoop ts [] [] = (ov, ch)" by (cases "reasonsLoop ts [] []")
  have "ov = [] \<longleftrightarrow> (\<forall>m\<in>set ts. \<not> overQuota m)"
    using reasonsLoop_over_empty [of ts "[]" "[]"] r by simp
  then show ?thesis by (auto simp: evaluate_def r)
qed

lemma inert_not_overQuota: "inert m \<Longrightarrow> \<not> overQuota m"
  by (auto simp: inert_def overQuota_def split: option.splits)

lemma inert_no_check: "inert m \<Longrightarrow> \<not> hasCheck m"
  by (auto simp: inert_def hasCheck_def)

lemma shouldReenable_append:
  "shouldReenable (xs @ ys) \<longleftrightarrow> shouldReenable xs \<and> shouldReenable ys"
  by (simp add: shouldReenable_def)

lemma shouldReenable_Cons:
  "shouldReenable (m # ms) \<longleftrightarrow>
     (case (reenable m, usage m) of (Some r, Some u) \<Rightarrow> js_le u r | _ \<Rightarrow> True) \<and>
     shouldReenable ms"
  by (simp add: shouldReenable_def)

lemma shouldReenable_inert: "list_all inert ts \<Longrightarrow> shouldReenable ts"
  by (induction ts) (auto simp: shouldReenable_def inert_def split: option.splits)

lemma evaluate_inert:
  assumes "list_all inert ts"
  shows "evaluate cur ts = (enabled, [], [])"
proof -
  obtain ov ch where r: "reasonsLoop ts [] [] = (ov, ch)" by (cases "reasonsLoop ts [] []")
  from assms have no: "\<forall>m\<in>set ts. \<not> overQuota m" and nc: "\<forall>m\<in>set ts. \<not> hasCheck m"
    by (auto simp: list_all_iff inert_not_overQuota inert_no_check)
  have "ov = []" using reasonsLoop_over_empty [of ts "[]" "[]"] r no by simp
  moreover have "ch = []" using reasonsLoop_checks_empty [of ts "[]" "[]"] r nc by simp
  ultimately show ?thesis using shouldReenable_inert [OF assms] by (simp add: evaluate_def r)
qed

text \<open>
  Claim C1.  One governed metric with quota 100 and re-enable threshold 80, all other metrics
  inert: from enabled with usage 90 the next state is enabled; with usage 100 it is disabled
  from either state; with usage 75 it is enabled from either state; from disabled with usage
  85 it stays disabled.
\<close>

theorem hysteresis_band:
  assumes "list_all inert pre" and "list_all inert post"
  shows "fst (evaluate enabled (pre @ governed n f 90 # post)) = enabled
       \<and> fst (evaluate cur (pre @ governed n f 100 # post)) = disabled
       \<and> fst (evaluate cur (pre @ governed n f 75 # post)) = enabled
       \<and> fst (evaluate disabled (pre @ governed n f 85 # post)) = disabled"
proof -
  have no: "\<forall>m\<in>set pre \<union> set post. \<not> overQuota m"
    using assms by (auto simp: list_all_iff inert_not_overQuota)
  have sr: "shouldReenable pre" "shouldReenable post"
    using assms by (simp_all add: shouldReenable_inert)
  have ov: "overQuota (governed n f u) \<longleftrightarrow> 100 \<le> u" for u
    by (auto simp: overQuota_def governed_def js_ge_def js_le_def)
  have re: "shouldReenable (pre @ governed n f u # post) \<longleftrightarrow> u \<le> 80" for u
    using sr by (auto simp: shouldReenable_append shouldReenable_Cons governed_def js_le_def)
  show ?thesis using no by (simp add: evaluate_status ov re)
qed

theorem hysteresis_band_witness:
  "fst (evaluate enabled
          ([] @ governed storage fmtB 90 # [unconfigured classA fmtI, unconfigured classB fmtI]))
     = enabled
 \<and> fst (evaluate enabled
          ([] @ governed storage fmtB 100 # [unconfigured classA fmtI, unconfigured classB fmtI]))
     = disabled
 \<and> fst (evaluate disabled
          ([] @ governed storage fmtB 75 # [unconfigured classA fmtI, unconfigured classB fmtI]))
     = enabled
 \<and> fst (evaluate disabled
          ([] @ governed storage fmtB 85 # [unconfigured classA fmtI, unconfigured classB fmtI]))
     = disabled"
proof -
  have a: "list_all inert []" by simp
  have b: "list_all inert [unconfigured classA fmtI, unconfigured classB fmtI]"
    by (simp add: inert_def unconfigured_def)
  show ?thesis
    using hysteresis_band [OF a b, of storage fmtB enabled]
      hysteresis_band [OF a b, of storage fmtB disabled]
    by simp
qed

section \<open>External calls of one invocation\<close>

lemma fetchR2Usage_world: "snd (fetchR2Usage remote w) = logCall FetchUsage w"
  by (simp add: fetchR2Usage_def Let_def split: option.splits parsed.splits)

lemma fetchAccessKeyStatus_world:
  "snd (fetchAccessKeyStatus remote w) = logCall FetchAccessKey w"
  by (simp add: fetchAccessKeyStatus_def Let_def split: option.splits parsed.splits)

lemma currentStatusOf_world:
  "snd (currentStatusOf remote stored w) =
     (case stored of Some _ \<Rightarrow> w | None \<Rightarrow> logCall FetchAccessKey w)"
  by (simp add: currentStatusOf_def fetchAccessKeyStatus_world split: option.splits)

lemma updateAccessKeyStatus_world:
  "snd (updateAccessKeyStatus remote st w) = logCall (PatchAccessKey st) w"
  by (simp add: updateAccessKeyStatus_def Let_def split: option.splits)

lemma updateAccessKeyStatus_fails:
  "isl (fst (updateAccessKeyStatus remote st w)) \<longleftrightarrow> toggleFails remote st"
  by (simp add: updateAccessKeyStatus_def toggleFails_def Let_def split: option.splits)

lemma gatherInputs_kv: "kv (snd (gatherInputs b env remote w)) = kv w"
proof -
  obtain r1 w1 where f: "fetchR2Usage remote w = (r1, w1)"
    by (cases "fetchR2Usage remote w")
  then have w1: "w1 = logCall FetchUsage w"
    using fetchR2Usage_world [of remote w] by simp
  obtain ws rs where n: "normaliseThresholds b env = (ws, rs)"
    by (cases "normaliseThresholds b env")
  show ?thesis
    using currentStatusOf_world [of remote "kv w"
        "logCall KvGet w1\<lparr>calls := calls (logCall KvGet w1) @ map ConsoleWarn ws\<rparr>"]
    by (auto simp: gatherInputs_def f n w1 logCall_def Let_def
        split: sum.splits prod.splits option.splits)
qed

lemma gatherInputs_patchCalls:
  "patchCalls (snd (gatherInputs b env remote w)) = patchCalls w"
proof -
  obtain r1 w1 where f: "fetchR2Usage remote w = (r1, w1)"
    by (cases "fetchR2Usage remote w")
  then have w1: "w1 = logCall FetchUsage w"
    using fetchR2Usage_world [of remote w] by simp
  obtain ws rs where n: "normaliseThresholds b env = (ws, rs)"
    by (cases "normaliseThresholds b env")
  have nw: "filter isPatch (map ConsoleWarn ws) = []" by (induction ws) auto
  show ?thesis
    using currentStatusOf_world [of remote "kv w"
        "logCall KvGet w1\<lparr>calls := calls (logCall KvGet w1) @ map ConsoleWarn ws\<rparr>"]
    by (auto simp: gatherInputs_def f n w1 nw logCall_def patchCalls_def Let_def
        split: sum.splits prod.splits option.splits)
qed

lemma gatherInputs_putCalls:
  "putCalls (snd (gatherInputs b env remote w)) = putCalls w"
proof -
  obtain r1 w1 where f: "fetchR2Usage remote w = (r1, w1)"
    by (cases "fetchR2Usage remote w")
  then have w1: "w1 = logCall FetchUsage w"
    using fetchR2Usage_world [of remote w] by simp
  obtain ws rs where n: "normaliseThresholds b env = (ws, rs)"
    by (cases "normaliseThresholds b env")
  have nw: "filter isKvPut (map ConsoleWarn ws) = []" by (induction ws) auto
  show ?thesis
    using currentStatusOf_world [of remote "kv w"
        "logCall KvGet w1\<lparr>calls := calls (logCall KvGet w1) @ map ConsoleWarn ws\<rparr>"]
    by (auto simp: gatherInputs_def f n w1 nw logCall_def putCalls_def Let_def
        split: sum.splits prod.splits option.splits)
qed

text \<open>
  Claim C4.  The set-status calls an invocation adds to the trace: none when the inputs could
  not be gathered or the decided state equals the current one, and exactly one, for the
  decided state, when the two differ.
\<close>

theorem toggle_iff_state_changes:
  "patchCalls (snd (runQuotaController b env remote w)) =
     patchCalls w @
     (case fst (gatherInputs b env remote w) of
        Inl e \<Rightarrow> []
      | Inr (u, ts, currentStatus) \<Rightarrow>
          if fst (evaluate currentStatus ts) = currentStatus then []
          else [PatchAccessKey (fst (evaluate currentStatus ts))])"
proof -
  obtain g w1 where gi: "gatherInputs b env remote w = (g, w1)"
    by (cases "gatherInputs b env remote w")
  have pw: "patchCalls w1 = patchCalls w"
    using gatherInputs_patchCalls [of b env remote w] gi by simp
  show ?thesis
  proof (cases g)
    case (Inl e)
    then show ?thesis using gi pw by (simp add: runQuotaController_def)
  next
    case (Inr x)
    obtain u ts cur where x: "x = (u, ts, cur)" by (cases x)
    obtain d ov ch where ev: "evaluate cur ts = (d, ov, ch)" by (cases "evaluate cur ts")
    show ?thesis
    proof (cases "d = cur")
      case True
      then show ?thesis using gi Inr x ev pw
        by (simp add: runQuotaController_def Let_def kvPut_def logCall_def patchCalls_def)
    next
      case False
      obtain r w2 where up: "updateAccessKeyStatus remote d w1 = (r, w2)"
        by (cases "updateAccessKeyStatus remote d w1")
      then have w2: "w2 = logCall (PatchAccessKey d) w1"
        using updateAccessKeyStatus_world [of remote d w1] by simp
      show ?thesis using gi Inr x ev pw False up w2
        by (cases r)
          (simp_all add: runQuotaController_def Let_def kvPut_def logCall_def patchCalls_def)
    qed
  qed
qed

text \<open>
  Claim C5.  When the decided state differs from the current one and the toggle call fails
  (the request is rejected or answered with a non-ok response), the invocation fails, the
  stored state is the one it found, and no \<open>put\<close> is issued.
\<close>

theorem failed_toggle_keeps_state:
  assumes gi: "gatherInputs b env remote w = (Inr (u, ts, currentStatus), w1)"
    and ne: "fst (evaluate currentStatus ts) \<noteq> currentStatus"
    and tf: "toggleFails remote (fst (evaluate currentStatus ts))"
  shows "isl (fst (runQuotaController b env remote w))
       \<and> kv (snd (runQuotaController b env remote w)) = kv w
       \<and> putCalls (snd (runQuotaController b env remote w)) = putCalls w"
proof -
  obtain d ov ch where ev: "evaluate currentStatus ts = (d, ov, ch)"
    by (cases "evaluate currentStatus ts")
  obtain r w2 where up: "updateAccessKeyStatus remote d w1 = (r, w2)"
    by (cases "updateAccessKeyStatus remote d w1")
  have w2: "w2 = logCall (PatchAccessKey d) w1"
    using updateAccessKeyStatus_world [of remote d w1] up by simp
  have "isl r" using updateAccessKeyStatus_fails [of remote d w1] tf ev up by simp
  then obtain e where r: "r = Inl e" by (cases r) auto
  have run: "runQuotaController b env remote w = (Inl e, w2)"
    using gi ev ne up r by (simp add: runQuotaController_def)
  have "kv w1 = kv w" using gatherInputs_kv [of b env remote w] gi by simp
  moreover have "putCalls w1 = putCalls w"
    using gatherInputs_putCalls [of b env remote w] gi by simp
  ultimately show ?thesis using run w2 by (simp add: logCall_def putCalls_def)
qed

text \<open>
  Claim C8.  On an ok response with a JSON payload, the usage fetch fails with
  \<open>NoUsageMetrics\<close> exactly when extraction is absent for all three metrics; otherwise it
  succeeds with the three extraction results, absent ones included.
\<close>

theorem usage_fetch_fails_iff_all_absent:
  assumes "usageResponse remote = Some response"
    and "ok response"
    and "body response = Json payload"
  shows "fst (fetchR2Usage remote w) =
           (if extractUsageBytes payload = None \<and> extractClassARequests payload = None \<and>
               extractClassBRequests payload = None
            then Inl NoUsageMetrics
            else Inr \<lparr>storageBytes = extractUsageBytes payload,
                      classARequests = extractClassARequests payload,
                      classBRequests = extractClassBRequests payload\<rparr>)"
  using assms by (simp add: fetchR2Usage_def Let_def)

section \<open>Extraction is a first-match search in traversal order\<close>

declare findFirstNumberByKeys.simps [simp del] visitEntry.simps [simp del] walk.simps [simp del]

lemma walk_leaf [simp]:
  "walk JNull = []" "walk (JBool b) = []" "walk (JNum x) = []" "walk (JStr s) = []"
  "walk (JObj fs) = walkEntries fs" "walk (JArr xs) = walkItems 0 xs"
  by (simp_all add: walk.simps)

lemma find_leaf [simp]:
  "findFirstNumberByKeys JNull keys = None" "findFirstNumberByKeys (JBool b) keys = None"
  "findFirstNumberByKeys (JNum x) keys = None" "findFirstNumberByKeys (JStr s) keys = None"
  "findFirstNumberByKeys (JObj fs) keys = findInEntries fs keys"
  "findFirstNumberByKeys (JArr xs) keys = findInIndexed 0 xs keys"
  by (simp_all add: findFirstNumberByKeys.simps)

lemma orElse_simps [simp]:
  "orElse None b = b" "orElse (Some x) b = Some x" "orElse a None = a"
  by (simp_all add: orElse_def split: option.splits)

lemma pick_append: "pick wanted (xs @ ys) = orElse (pick wanted xs) (pick wanted ys)"
  by (induction xs) (auto split: json.splits)

lemma pick_None_iff: "pick wanted xs = None \<longleftrightarrow> (\<forall>p\<in>set xs. \<not> hit wanted p)"
  by (induction xs) (auto split: json.splits if_splits)

lemma itemsWalk_subset: "set (itemsWalk xs) \<subseteq> set (walkItems i xs)"
  by (induction xs arbitrary: i) auto

text \<open>
  The inner loop over the elements of an array-valued entry repeats searches the recursive
  call on the array has already made: it finds nothing when that call found nothing.
\<close>

lemma pick_itemsWalk_None:
  "pick wanted (walkItems i xs) = None \<Longrightarrow> pick wanted (itemsWalk xs) = None"
  using itemsWalk_subset [of xs i] unfolding pick_None_iff by blast

lemma pick_Cons_Field:
  "pick (fieldOrIndexIn keys) ((Field k, v) # rest) =
     orElse (ownValue k v keys) (pick (fieldOrIndexIn keys) rest)"
  by (cases v) (simp_all add: ownValue_def)

lemma pick_Cons_Index:
  "pick (fieldOrIndexIn keys) ((Index i, v) # rest) =
     orElse (ownValue (showNat i) v keys) (pick (fieldOrIndexIn keys) rest)"
  by (cases v) (simp_all add: ownValue_def)

lemma findInEntries_Cons:
  "findInEntries ((key, nested) # rest) keys =
     orElse (visitEntry key nested keys) (findInEntries rest keys)"
  by (simp add: orElse_def)

lemma findInIndexed_Cons:
  "findInIndexed i (nested # rest) keys =
     orElse (visitEntry (showNat i) nested keys) (findInIndexed (Suc i) rest keys)"
  by (simp add: orElse_def)

lemma findInItems_Cons:
  "findInItems (item # items) keys =
     orElse (findFirstNumberByKeys item keys) (findInItems items keys)"
  by (simp add: orElse_def)

lemma visitEntry_unfold:
  "visitEntry key nested keys =
     orElse (ownValue key nested keys)
       (orElse (if typeofObject nested then findFirstNumberByKeys nested keys else None)
          (case nested of JArr items \<Rightarrow> findInItems items keys | _ \<Rightarrow> None))"
  by (simp add: visitEntry.simps ownValue_def orElse_def)

lemma orElse_step:
  assumes "v = orElse a p" and "v = None \<Longrightarrow> f = q"
  shows "orElse v f = orElse a (orElse p q)"
  using assms by (cases a; cases p) simp_all

lemma entries_step:
  assumes "visitEntry key nested keys =
             orElse (ownValue key nested keys) (pick (fieldOrIndexIn keys) (walk nested))"
    and "visitEntry key nested keys = None \<Longrightarrow>
           findInEntries rest keys = pick (fieldOrIndexIn keys) (walkEntries rest)"
  shows "findInEntries ((key, nested) # rest) keys =
           pick (fieldOrIndexIn keys) (walkEntries ((key, nested) # rest))"
  unfolding findInEntries_Cons walkEntries.simps pick_Cons_Field pick_append
  using assms by (rule orElse_step)

lemma indexed_step:
  assumes "visitEntry (showNat i) nested keys =
             orElse (ownValue (showNat i) nested keys)
               (pick (fieldOrIndexIn keys) (walk nested))"
    and "visitEntry (showNat i) nested keys = None \<Longrightarrow>
           findInIndexed (Suc i) rest keys = pick (fieldOrIndexIn keys) (walkItems (Suc i) rest)"
  shows "findInIndexed i (nested # rest) keys =
           pick (fieldOrIndexIn keys) (walkItems i (nested # rest))"
  unfolding findInIndexed_Cons walkItems.simps pick_Cons_Index pick_append
  using assms by (rule orElse_step)

lemma items_step:
  assumes "findFirstNumberByKeys item keys = pick (fieldOrIndexIn keys) (walk item)"
    and "findFirstNumberByKeys item keys = None \<Longrightarrow>
           findInItems items keys = pick (fieldOrIndexIn keys) (itemsWalk items)"
  shows "findInItems (item # items) keys =
           pick (fieldOrIndexIn keys) (itemsWalk (item # items))"
  unfolding findInItems_Cons itemsWalk.simps pick_append
  using assms by (cases "pick (fieldOrIndexIn keys) (walk item)") simp_all

lemma visit_step:
  assumes ih1: "\<lbrakk>ownValue key nested keys = None; typeofObject nested\<rbrakk> \<Longrightarrow>
      findFirstNumberByKeys nested keys = pick (fieldOrIndexIn keys) (walk nested)"
    and ih2: "\<And>items.
      \<lbrakk>ownValue key nested keys = None;
       (if typeofObject nested then findFirstNumberByKeys nested keys else None) = None;
       nested = JArr items\<rbrakk>
      \<Longrightarrow> findInItems items keys = pick (fieldOrIndexIn keys) (itemsWalk items)"
  shows "visitEntry key nested keys =
           orElse (ownValue key nested keys) (pick (fieldOrIndexIn keys) (walk nested))"
proof (cases nested)
  case (JArr items)
  have own: "ownValue key nested keys = None" using JArr by (simp add: ownValue_def)
  have a: "findFirstNumberByKeys nested keys = pick (fieldOrIndexIn keys) (walk nested)"
    using ih1 own JArr by simp
  show ?thesis
  proof (cases "pick (fieldOrIndexIn keys) (walk nested)")
    case None
    then have "findInItems items keys = pick (fieldOrIndexIn keys) (itemsWalk items)"
      using ih2 [of items] own a JArr by simp
    moreover have "pick (fieldOrIndexIn keys) (itemsWalk items) = None"
      using None JArr pick_itemsWalk_None [of "fieldOrIndexIn keys" 0 items] by simp
    ultimately show ?thesis using JArr None a own by (simp add: visitEntry_unfold)
  next
    case (Some c)
    then show ?thesis using JArr a own by (simp add: visitEntry_unfold)
  qed
next
  case (JObj fs)
  have own: "ownValue key nested keys = None" using JObj by (simp add: ownValue_def)
  have a: "findFirstNumberByKeys nested keys = pick (fieldOrIndexIn keys) (walk nested)"
    using ih1 own JObj by simp
  show ?thesis using JObj a own by (simp add: visitEntry_unfold)
next
  case JNull
  then show ?thesis by (simp add: visitEntry_unfold ownValue_def)
next
  case (JBool b)
  then show ?thesis by (simp add: visitEntry_unfold ownValue_def)
next
  case (JNum x)
  then show ?thesis by (simp add: visitEntry_unfold)
next
  case (JStr s)
  then show ?thesis by (simp add: visitEntry_unfold ownValue_def)
qed

lemma find_refines:
  "findFirstNumberByKeys v keys = pick (fieldOrIndexIn keys) (walk v)"
  "findInEntries fs keys = pick (fieldOrIndexIn keys) (walkEntries fs)"
  "findInIndexed i xs keys = pick (fieldOrIndexIn keys) (walkItems i xs)"
  "visitEntry key nested keys =
     orElse (ownValue key nested keys) (pick (fieldOrIndexIn keys) (walk nested))"
  "findInItems items keys = pick (fieldOrIndexIn keys) (itemsWalk items)"
proof (induction v keys and fs keys and i xs keys and key nested keys and items keys
    rule: findFirstNumberByKeys_findInEntries_findInIndexed_visitEntry_findInItems.induct)
  case (1 v keys)
  then show ?case by (cases v) simp_all
next
  case (2 keys)
  show ?case by simp
next
  case (3 key nested rest keys)
  then show ?case by (rule entries_step)
next
  case (4 i keys)
  show ?case by simp
next
  case (5 i nested rest keys)
  then show ?case by (rule indexed_step)
next
  case (6 key nested keys)
  show ?case
  proof (rule visit_step)
    assume "ownValue key nested keys = None" and "typeofObject nested"
    then show "findFirstNumberByKeys nested keys = pick (fieldOrIndexIn keys) (walk nested)"
      using 6(1) by (simp add: ownValue_def)
  next
    fix items
    assume "ownValue key nested keys = None"
      and "(if typeofObject nested then findFirstNumberByKeys nested keys else None) = None"
      and "nested = JArr items"
    then show "findInItems items keys = pick (fieldOrIndexIn keys) (itemsWalk items)"
      using 6(2) [of items] by (simp add: ownValue_def)
  qed
next
  case (7 keys)
  show ?case by simp
next
  case (8 item items keys)
  then show ?case by (rule items_step)
qed

text \<open>
  Claim C9, as stated, fails on a payload that is a bare number (returned although no field
  owns it), on a payload whose \<open>result\<close> is \<open>null\<close> (the traversal then starts from the
  full payload), and on a candidate key that is the decimal index of an array element.
\<close>

theorem extractMetric_stated_counterexample:
  "extractMetric (JNum (Num 5)) [''usageBytes'']
     \<noteq> extractMetric_stated (JNum (Num 5)) [''usageBytes'']
 \<and> extractMetric (JObj [(''result'', JNull), (''usageBytes'', JNum (Num 5))]) [''usageBytes'']
     \<noteq> extractMetric_stated (JObj [(''result'', JNull), (''usageBytes'', JNum (Num 5))])
          [''usageBytes'']
 \<and> extractMetric (JObj [(''a'', JArr [JNum (Num 5)])]) [''0'']
     \<noteq> extractMetric_stated (JObj [(''a'', JArr [JNum (Num 5)])]) [''0'']"
  by (simp add: extractMetric_stated_def visitEntry.simps showNat.simps digitChar_def
      decimalDigits_def)

text \<open>
  Claim C9, amended.  For every payload and candidate-key list: a payload that is a number is
  returned when finite and is absent otherwise; any other payload is searched depth-first,
  entries in enumeration order and array elements in order, starting from its \<open>result\<close>
  when that field is present and not \<open>null\<close> and from the full payload otherwise; the result
  is the first finite number owned by a candidate key, where an array element is owned
  by its decimal index, and absent when there is none.
\<close>

theorem extractMetric_traversal:
  "extractMetric payload keys = extractMetric_amended payload keys"
proof (cases payload)
  case (JObj fs)
  then show ?thesis
    by (simp add: extractMetric_amended_def find_refines(1) Let_def del: find_leaf walk_leaf
        split: option.splits json.splits)
next
  case (JArr xs)
  then show ?thesis
    by (simp add: extractMetric_amended_def find_refines(1) Let_def del: find_leaf walk_leaf
        split: option.splits json.splits)
qed (simp_all add: extractMetric_amended_def)

section \<open>Evaluation on concrete inputs\<close>

lemma floor_rat_numeral [simp]: "\<lfloor>numeral a / numeral b :: rat\<rfloor> = numeral a div numeral b"
  by (metis floor_divide_of_int_eq of_int_numeral)

lemmas round_double_eval = round_double_def norm_up.simps norm_down.simps
  round_half_even_def scale2_def Let_def

lemma lit_0_9_value: "lit_0_9 = Num (8106479329266893 / 2 ^ 53)"
  by (simp add: lit_0_9_def round_double_eval)

lemma lit_0_8_value: "lit_0_8 = Num (3602879701896397 / 2 ^ 52)"
  by (simp add: lit_0_8_def round_double_eval)

lemmas decimal_eval = parseDecimal_def isDigit_def digitsValue_def digitValue_def
  decimalDigits_def

lemma parseDecimal_100: "parseDecimal ''100'' = Some (100, [])"
  by (simp add: decimal_eval)

lemma parseDecimal_0: "parseDecimal ''0'' = Some (0, [])"
  by (simp add: decimal_eval)

lemma round_double_100: "round_double 100 = Num 100"
  by (simp add: round_double_eval)

lemma default_reenable_100: "js_floor (js_mul (Num 100) lit_0_8) = Num 80"
  by (simp add: lit_0_8_value round_double_eval)

lemma default_reenable_classA: "js_floor (js_mul (Num 1000000) lit_0_8) = Num 800000"
  by (simp add: lit_0_8_value round_double_eval)

lemma default_reenable_classB: "js_floor (js_mul (Num 10000000) lit_0_8) = Num 8000000"
  by (simp add: lit_0_8_value round_double_eval)

lemma clamped_reenable_100: "js_floor (js_mul (Num 100) lit_0_9) = Num 90"
  by (simp add: lit_0_9_value round_double_eval)

lemmas trim_eval = trim_def skipSpaces.simps whiteSpace_def startsWith_def

lemma trim_100: "trim ''100'' = ''100''"
  by (simp add: trim_eval)

lemma trim_0: "trim ''0'' = ''0''"
  by (simp add: trim_eval)

lemma parseOptionalSize_100: "parseOptionalSize b (Some ''100'') = Inr (Some (Num 100))"
  by (simp add: parseOptionalSize_def parseSizeToBytes_def trim_100 parseDecimal_100
      round_double_100 js_le_def)

lemma parseOptionalSize_0: "parseOptionalSize b (Some ''0'') = Inl InvalidQuotaSize"
  by (simp add: parseOptionalSize_def parseSizeToBytes_def trim_0 parseDecimal_0
      round_double_def js_le_def)

text \<open>A no-break space after the digits is trimmed like a blank.\<close>

lemma parseOptionalSize_no_break_space:
  "parseOptionalSize b (Some (''100'' @ [CHR 0xC2, CHR 0xA0])) = Inr (Some (Num 100))"
proof -
  have "trim (''100'' @ [CHR 0xC2, CHR 0xA0]) = ''100''"
    by (simp add: trim_eval)
  then show ?thesis
    by (simp add: parseOptionalSize_def parseSizeToBytes_def parseDecimal_100
        round_double_100 js_le_def)
qed

lemma parseOptionalNumber_0: "parseOptionalNumber b (Some ''0'') d = Inl InvalidNumericQuota"
  by (simp add: parseOptionalNumber_def js_Number_def parseDecimal_0 round_double_def js_le_def)

lemma parseOptional_None:
  "parseOptionalSize b None = Inr None" "parseOptionalNumber b None d = Inr d"
  by (simp_all add: parseOptionalSize_def parseOptionalNumber_def)

lemmas thresholds_eval = normaliseThresholds_def sampleEnv_def parseOptional_None
  parseOptionalSize_100 parseOptionalSize_0 parseOptionalNumber_0
  default_reenable_100 default_reenable_classA default_reenable_classB

lemma normaliseThresholds_quota_100:
  "normaliseThresholds b (sampleEnv (Some ''100'') None None) =
     ([], Inr [\<lparr>name = storage, usage = None, quota = Some (Num 100), reenable = Some (Num 80),
                 formatter = formatBytesOptional b\<rparr>,
               \<lparr>name = classA, usage = None, quota = Some (Num 1000000),
                 reenable = Some (Num 800000), formatter = formatInteger b\<rparr>,
               \<lparr>name = classB, usage = None, quota = Some (Num 10000000),
                 reenable = Some (Num 8000000), formatter = formatInteger b\<rparr>])"
  by (simp add: thresholds_eval)

lemma normaliseThresholds_reenable_only:
  "normaliseThresholds b (sampleEnv None (Some ''100'') None) =
     ([], Inr [\<lparr>name = storage, usage = None, quota = None, reenable = Some (Num 100),
                 formatter = formatBytesOptional b\<rparr>,
               \<lparr>name = classA, usage = None, quota = Some (Num 1000000),
                 reenable = Some (Num 800000), formatter = formatInteger b\<rparr>,
               \<lparr>name = classB, usage = None, quota = Some (Num 10000000),
                 reenable = Some (Num 8000000), formatter = formatInteger b\<rparr>])"
  by (simp add: thresholds_eval)

lemma extract_usagePayload:
  "extractUsageBytes (usagePayload s a c) = Some (Num s)"
  "extractClassARequests (usagePayload s a c) = Some (Num a)"
  "extractClassBRequests (usagePayload s a c) = Some (Num c)"
  by (simp_all add: usagePayload_def extractUsageBytes_def extractClassARequests_def
      extractClassBRequests_def CANDIDATE_USAGE_KEYS_def CANDIDATE_CLASS_A_KEYS_def
      CANDIDATE_CLASS_B_KEYS_def visitEntry.simps)

lemma fetchR2Usage_sample:
  "fetchR2Usage (sampleRemote (usagePayload s a c) p) w =
     (Inr \<lparr>storageBytes = Some (Num s), classARequests = Some (Num a),
            classBRequests = Some (Num c)\<rparr>, logCall FetchUsage w)"
  by (simp add: fetchR2Usage_def sampleRemote_def okResponse_def extract_usagePayload)

lemma sampleEnv_ids:
  "CF_ACCOUNT_ID (sampleEnv q r ra) \<noteq> []" "CF_API_TOKEN (sampleEnv q r ra) \<noteq> []"
  "R2_ACCESS_KEY_ID (sampleEnv q r ra) \<noteq> []"
  by (simp_all add: sampleEnv_def)

lemma fetchAccessKeyStatus_sample:
  "fetchAccessKeyStatus (sampleRemote x p) w = (Inr enabled, logCall FetchAccessKey w)"
  by (simp add: fetchAccessKeyStatus_def sampleRemote_def okResponse_def)

lemmas gather_eval = gatherInputs_def sampleEnv_ids fetchR2Usage_sample currentStatusOf_def
  fetchAccessKeyStatus_sample logCall_def worldWith_def assignUsage_def fmtB_def fmtI_def
  storedAs_def

lemma gatherInputs_quota_100:
  "gatherInputs sampleBuiltins (sampleEnv (Some ''100'') None None)
     (sampleRemote (usagePayload s 0 0) p) (worldWith None) =
     (Inr (\<lparr>storageBytes = Some (Num s), classARequests = Some (Num 0),
             classBRequests = Some (Num 0)\<rparr>,
           [governed storage fmtB s,
            \<lparr>name = classA, usage = Some (Num 0), quota = Some (Num 1000000),
              reenable = Some (Num 800000), formatter = fmtI\<rparr>,
            \<lparr>name = classB, usage = Some (Num 0), quota = Some (Num 10000000),
              reenable = Some (Num 8000000), formatter = fmtI\<rparr>],
           enabled),
      \<lparr>kv = None, calls = [FetchUsage, KvGet, FetchAccessKey]\<rparr>)"
  by (simp add: gather_eval normaliseThresholds_quota_100 governed_def)

lemma gatherInputs_quota_100_stored:
  "gatherInputs sampleBuiltins (sampleEnv (Some ''100'') None None)
     (sampleRemote (usagePayload s 0 0) p) (worldWith (Some (storedAs cur))) =
     (Inr (\<lparr>storageBytes = Some (Num s), classARequests = Some (Num 0),
             classBRequests = Some (Num 0)\<rparr>,
           [governed storage fmtB s,
            \<lparr>name = classA, usage = Some (Num 0), quota = Some (Num 1000000),
              reenable = Some (Num 800000), formatter = fmtI\<rparr>,
            \<lparr>name = classB, usage = Some (Num 0), quota = Some (Num 10000000),
              reenable = Some (Num 8000000), formatter = fmtI\<rparr>],
           cur),
      \<lparr>kv = Some (storedAs cur), calls = [FetchUsage, KvGet]\<rparr>)"
  by (simp add: gather_eval normaliseThresholds_quota_100 governed_def)

lemma gatherInputs_reenable_only:
  "gatherInputs sampleBuiltins (sampleEnv None (Some ''100'') None)
     (sampleRemote (usagePayload s 0 0) p) (worldWith (Some (storedAs cur))) =
     (Inr (\<lparr>storageBytes = Some (Num s), classARequests = Some (Num 0),
             classBRequests = Some (Num 0)\<rparr>,
           [\<lparr>name = storage, usage = Some (Num s), quota = None,
              reenable = Some (Num 100), formatter = fmtB\<rparr>,
            \<lparr>name = classA, usage = Some (Num 0), quota = Some (Num 1000000),
              reenable = Some (Num 800000), formatter = fmtI\<rparr>,
            \<lparr>name = classB, usage = Some (Num 0), quota = Some (Num 10000000),
              reenable = Some (Num 8000000), formatter = fmtI\<rparr>],
           cur),
      \<lparr>kv = Some (storedAs cur), calls = [FetchUsage, KvGet]\<rparr>)"
  by (simp add: gather_eval normaliseThresholds_reenable_only)

lemmas status_eval = evaluate_status overQuota_def shouldReenable_def governed_def
  js_ge_def js_le_def

lemma statusOf_run:
  assumes "gatherInputs b env remote w = (Inr (u, ts, cur), w1)"
    and "fst (evaluate cur ts) = cur \<or> \<not> toggleFails remote (fst (evaluate cur ts))"
  shows "statusOf (runQuotaController b env remote w) = Some (fst (evaluate cur ts))"
proof -
  obtain d ov ch where ev: "evaluate cur ts = (d, ov, ch)" by (cases "evaluate cur ts")
  show ?thesis
  proof (cases "d = cur")
    case True
    then show ?thesis using assms(1) ev
      by (simp add: statusOf_def runQuotaController_def Let_def)
  next
    case False
    then have "\<not> isl (fst (updateAccessKeyStatus remote d w1))"
      using assms(2) ev updateAccessKeyStatus_fails [of remote d w1] by simp
    then obtain w2 where "updateAccessKeyStatus remote d w1 = (Inr (), w2)"
      by (cases "updateAccessKeyStatus remote d w1"; cases "fst (updateAccessKeyStatus remote d w1)") auto
    then show ?thesis using assms(1) ev False
      by (simp add: statusOf_def runQuotaController_def Let_def)
  qed
qed

lemma worldWith_simps: "kv (worldWith st) = st" "calls (worldWith st) = []"
  by (simp_all add: worldWith_def)

lemma toggle_sample: "toggleFails (sampleRemote x p) st \<longleftrightarrow> \<not> p"
  by (simp add: toggleFails_def sampleRemote_def okResponse_def errorResponse_def)

text \<open>Witnesses of the theorems on the external calls and on extraction.\<close>

theorem toggle_iff_state_changes_witness:
  "patchCalls (snd (runQuotaController sampleBuiltins (sampleEnv (Some ''100'') None None)
       (sampleRemote (usagePayload 100 0 0) True) (worldWith (Some (storedAs enabled)))))
     = [PatchAccessKey disabled]
 \<and> patchCalls (snd (runQuotaController sampleBuiltins (sampleEnv (Some ''100'') None None)
       (sampleRemote (usagePayload 90 0 0) True) (worldWith (Some (storedAs enabled)))))
     = []"
  using toggle_iff_state_changes [of sampleBuiltins "sampleEnv (Some ''100'') None None"
      "sampleRemote (usagePayload 100 0 0) True" "worldWith (Some (storedAs enabled))"]
    toggle_iff_state_changes [of sampleBuiltins "sampleEnv (Some ''100'') None None"
      "sampleRemote (usagePayload 90 0 0) True" "worldWith (Some (storedAs enabled))"]
  by (simp add: gatherInputs_quota_100_stored status_eval patchCalls_def worldWith_simps)

theorem failed_toggle_keeps_state_witness:
  "isl (fst (runQuotaController sampleBuiltins (sampleEnv (Some ''100'') None None)
       (sampleRemote (usagePayload 100 0 0) False) (worldWith (Some (storedAs enabled)))))
 \<and> kv (snd (runQuotaController sampleBuiltins (sampleEnv (Some ''100'') None None)
       (sampleRemote (usagePayload 100 0 0) False) (worldWith (Some (storedAs enabled)))))
     = Some (storedAs enabled)
 \<and> putCalls (snd (runQuotaController sampleBuiltins (sampleEnv (Some ''100'') None None)
       (sampleRemote (usagePayload 100 0 0) False) (worldWith (Some (storedAs enabled)))))
     = []"
proof -
  have ev: "fst (evaluate enabled
               [governed storage fmtB 100,
                \<lparr>name = classA, usage = Some (Num 0), quota = Some (Num 1000000),
                  reenable = Some (Num 800000), formatter = fmtI\<rparr>,
                \<lparr>name = classB, usage = Some (Num 0), quota = Some (Num 10000000),
                  reenable = Some (Num 8000000), formatter = fmtI\<rparr>]) = disabled"
    by (simp add: status_eval)
  show ?thesis
    using failed_toggle_keeps_state [OF gatherInputs_quota_100_stored [of 100 False enabled]]
    by (simp add: ev toggle_sample putCalls_def worldWith_simps)
qed

theorem usage_fetch_fails_iff_all_absent_witness:
  "fst (fetchR2Usage (sampleRemote (JObj [(''result'', JObj [(''usageBytes'', JNum (Num 5))])]) True)
          (worldWith None))
     = Inr \<lparr>storageBytes = Some (Num 5), classARequests = None, classBRequests = None\<rparr>
 \<and> fst (fetchR2Usage (sampleRemote (JObj [(''result'', JObj [(''success'', JBool True)])]) True)
          (worldWith None))
     = Inl NoUsageMetrics"
proof -
  have r: "usageResponse (sampleRemote x True) = Some (okResponse (Json x))"
    "ok (okResponse (Json x))" "body (okResponse (Json x)) = Json x" for x
    by (simp_all add: sampleRemote_def okResponse_def)
  show ?thesis
    using usage_fetch_fails_iff_all_absent [OF r,
        of "JObj [(''result'', JObj [(''usageBytes'', JNum (Num 5))])]" "worldWith None"]
      usage_fetch_fails_iff_all_absent [OF r,
        of "JObj [(''result'', JObj [(''success'', JBool True)])]" "worldWith None"]
    by (simp add: extractUsageBytes_def extractClassARequests_def
        extractClassBRequests_def CANDIDATE_USAGE_KEYS_def CANDIDATE_CLASS_A_KEYS_def
        CANDIDATE_CLASS_B_KEYS_def visitEntry.simps)
qed

theorem extractMetric_traversal_witness:
  "extractMetric_amended
     (JObj [(''success'', JBool True),
            (''result'', JObj [(''buckets'', JArr [JObj [(''usageBytes'', JNum (Num 5))]])])])
     CANDIDATE_USAGE_KEYS = Some (Num 5)"
proof -
  have "extractMetric
     (JObj [(''success'', JBool True),
            (''result'', JObj [(''buckets'', JArr [JObj [(''usageBytes'', JNum (Num 5))]])])])
     CANDIDATE_USAGE_KEYS = Some (Num 5)"
    by (simp add: CANDIDATE_USAGE_KEYS_def visitEntry.simps)
  then show ?thesis
    using extractMetric_traversal [of "JObj [(''success'', JBool True),
            (''result'', JObj [(''buckets'', JArr [JObj [(''usageBytes'', JNum (Num 5))]])])]"
        CANDIDATE_USAGE_KEYS]
    by simp
qed

section \<open>No metric contributes\<close>

text \<open>
  With no quota setting at all the storage metric has neither quota nor threshold, and the
  operation counts keep their default quotas.  On a payload that reports only the storage
  usage, no metric contributes to the decision.
\<close>

lemma normaliseThresholds_defaults:
  "normaliseThresholds b (sampleEnv None None None) =
     ([], Inr [\<lparr>name = storage, usage = None, quota = None, reenable = None,
                 formatter = formatBytesOptional b\<rparr>,
               \<lparr>name = classA, usage = None, quota = Some (Num 1000000),
                 reenable = Some (Num 800000), formatter = formatInteger b\<rparr>,
               \<lparr>name = classB, usage = None, quota = Some (Num 10000000),
                 reenable = Some (Num 8000000), formatter = formatInteger b\<rparr>])"
  by (simp add: thresholds_eval)

lemma extract_storageOnlyPayload:
  "extractUsageBytes storageOnlyPayload = Some (Num 5)"
  "extractClassARequests storageOnlyPayload = None"
  "extractClassBRequests storageOnlyPayload = None"
  by (simp_all add: storageOnlyPayload_def extractUsageBytes_def extractClassARequests_def
      extractClassBRequests_def CANDIDATE_USAGE_KEYS_def CANDIDATE_CLASS_A_KEYS_def
      CANDIDATE_CLASS_B_KEYS_def visitEntry.simps findFirstNumberByKeys.simps)

lemma fetchR2Usage_storage_only:
  "fetchR2Usage (sampleRemote storageOnlyPayload p) w =
     (Inr \<lparr>storageBytes = Some (Num 5), classARequests = None, classBRequests = None\<rparr>,
      logCall FetchUsage w)"
  by (simp add: fetchR2Usage_def sampleRemote_def okResponse_def extract_storageOnlyPayload)

lemma gatherInputs_storage_only:
  "gatherInputs sampleBuiltins (sampleEnv None None None)
     (sampleRemote storageOnlyPayload p) (worldWith (Some (storedAs cur))) =
     (Inr (\<lparr>storageBytes = Some (Num 5), classARequests = None, classBRequests = None\<rparr>,
           [\<lparr>name = storage, usage = Some (Num 5), quota = None, reenable = None,
              formatter = fmtB\<rparr>,
            \<lparr>name = classA, usage = None, quota = Some (Num 1000000),
              reenable = Some (Num 800000), formatter = fmtI\<rparr>,
            \<lparr>name = classB, usage = None, quota = Some (Num 10000000),
              reenable = Some (Num 8000000), formatter = fmtI\<rparr>],
           cur),
      \<lparr>kv = Some (storedAs cur), calls = [FetchUsage, KvGet]\<rparr>)"
  by (simp add: gatherInputs_def sampleEnv_ids fetchR2Usage_storage_only currentStatusOf_def
      logCall_def worldWith_def assignUsage_def fmtB_def fmtI_def storedAs_def
      normaliseThresholds_defaults)

text \<open>
  Claim C3, as stated, fails.  With no quota setting, a payload that reports only the storage
  usage and the key stored as disabled, the worker builds a metric list in which nothing
  contributes; the evaluator's next state on it is not the current state, and the invocation
  returns the key enabled.
\<close>

theorem no_thresholds_counterexample:
  "fst (gatherInputs sampleBuiltins (sampleEnv None None None)
          (sampleRemote storageOnlyPayload True) (worldWith (Some (storedAs disabled)))) =
     Inr (\<lparr>storageBytes = Some (Num 5), classARequests = None, classBRequests = None\<rparr>,
          [\<lparr>name = storage, usage = Some (Num 5), quota = None, reenable = None,
             formatter = fmtB\<rparr>,
           \<lparr>name = classA, usage = None, quota = Some (Num 1000000),
             reenable = Some (Num 800000), formatter = fmtI\<rparr>,
           \<lparr>name = classB, usage = None, quota = Some (Num 10000000),
             reenable = Some (Num 8000000), formatter = fmtI\<rparr>],
          disabled)
 \<and> fst (evaluate disabled
          [\<lparr>name = storage, usage = Some (Num 5), quota = None, reenable = None,
             formatter = fmtB\<rparr>,
           \<lparr>name = classA, usage = None, quota = Some (Num 1000000),
             reenable = Some (Num 800000), formatter = fmtI\<rparr>,
           \<lparr>name = classB, usage = None, quota = Some (Num 10000000),
             reenable = Some (Num 8000000), formatter = fmtI\<rparr>])
     \<noteq> disabled
 \<and> statusOf (runQuotaController sampleBuiltins (sampleEnv None None None)
       (sampleRemote storageOnlyPayload True) (worldWith (Some (storedAs disabled))))
     = Some enabled"
proof -
  let ?ts = "[\<lparr>name = storage, usage = Some (Num 5), quota = None, reenable = None,
                formatter = fmtB\<rparr>,
              \<lparr>name = classA, usage = None, quota = Some (Num 1000000),
                reenable = Some (Num 800000), formatter = fmtI\<rparr>,
              \<lparr>name = classB, usage = None, quota = Some (Num 10000000),
                reenable = Some (Num 8000000), formatter = fmtI\<rparr>]"
  have "list_all inert ?ts" by (simp add: inert_def)
  then have ev: "fst (evaluate disabled ?ts) = enabled" by (simp add: evaluate_inert)
  have "statusOf (runQuotaController sampleBuiltins (sampleEnv None None None)
          (sampleRemote storageOnlyPayload True) (worldWith (Some (storedAs disabled))))
        = Some (fst (evaluate disabled ?ts))"
    by (rule statusOf_run [OF gatherInputs_storage_only]) (simp add: toggle_sample)
  then show ?thesis by (simp add: gatherInputs_storage_only ev)
qed

text \<open>
  Claim C3, amended.  When no metric contributes to the decision (each metric lacks usage, or
  lacks both quota and re-enable threshold), the evaluator's next state is enabled from either
  current state; from enabled it is the current state, and the message notes
  \<open>no thresholds configured\<close>.
\<close>

theorem no_thresholds:
  assumes "list_all inert ts"
  shows "fst (evaluate cur ts) = enabled
       \<and> decisionMessage enabled ts =
           ''Keeping access key enabled. Metrics: no thresholds configured.''"
  using evaluate_inert [OF assms] by (simp add: decisionMessage_def buildStatusMessage_def)

theorem no_thresholds_witness:
  "fst (evaluate disabled
          [\<lparr>name = storage, usage = Some (Num 5), quota = None, reenable = None,
             formatter = fmtB\<rparr>,
           \<lparr>name = classA, usage = None, quota = Some (Num 1000000),
             reenable = Some (Num 800000), formatter = fmtI\<rparr>,
           \<lparr>name = classB, usage = None, quota = Some (Num 10000000),
             reenable = Some (Num 8000000), formatter = fmtI\<rparr>])
     = enabled
 \<and> fst (evaluate enabled
          [\<lparr>name = storage, usage = Some (Num 5), quota = None, reenable = None,
             formatter = fmtB\<rparr>,
           \<lparr>name = classA, usage = None, quota = Some (Num 1000000),
             reenable = Some (Num 800000), formatter = fmtI\<rparr>,
           \<lparr>name = classB, usage = None, quota = Some (Num 10000000),
             reenable = Some (Num 8000000), formatter = fmtI\<rparr>])
     = enabled
 \<and> decisionMessage enabled
       [\<lparr>name = storage, usage = Some (Num 5), quota = None, reenable = None,
          formatter = fmtB\<rparr>,
        \<lparr>name = classA, usage = None, quota = Some (Num 1000000),
          reenable = Some (Num 800000), formatter = fmtI\<rparr>,
        \<lparr>name = classB, usage = None, quota = Some (Num 10000000),
          reenable = Some (Num 8000000), formatter = fmtI\<rparr>] =
     ''Keeping access key enabled. Metrics: no thresholds configured.''"
proof -
  have a: "list_all inert
             [\<lparr>name = storage, usage = Some (Num 5), quota = None, reenable = None,
                formatter = fmtB\<rparr>,
              \<lparr>name = classA, usage = None, quota = Some (Num 1000000),
                reenable = Some (Num 800000), formatter = fmtI\<rparr>,
              \<lparr>name = classB, usage = None, quota = Some (Num 10000000),
                reenable = Some (Num 8000000), formatter = fmtI\<rparr>]"
    by (simp add: inert_def)
  show ?thesis
    using no_thresholds [OF a, of disabled] no_thresholds [OF a, of enabled] by simp
qed

section \<open>A metric without quota\<close>

text \<open>
  Claim C2 at a failing input.  With \<open>QUOTA_BYTES\<close> unset and
  \<open>REENABLE_THRESHOLD\<close> set to \<open>100\<close>, the storage metric resolves to no quota
  and a re-enable threshold of 100.  With the key disabled and both request counts at zero, a
  storage usage of 200 keeps the key disabled, where a usage of 100 re-enables it: the metric
  without quota blocks the re-enable.
\<close>

theorem no_quota_metric_blocks_reenable:
  "snd (normaliseThresholds sampleBuiltins (sampleEnv None (Some ''100'') None)) =
     Inr [\<lparr>name = storage, usage = None, quota = None, reenable = Some (Num 100),
            formatter = fmtB\<rparr>,
          \<lparr>name = classA, usage = None, quota = Some (Num 1000000),
            reenable = Some (Num 800000), formatter = fmtI\<rparr>,
          \<lparr>name = classB, usage = None, quota = Some (Num 10000000),
            reenable = Some (Num 8000000), formatter = fmtI\<rparr>]
 \<and> statusOf (runQuotaController sampleBuiltins (sampleEnv None (Some ''100'') None)
       (sampleRemote (usagePayload 200 0 0) True) (worldWith (Some (storedAs disabled))))
     = Some disabled
 \<and> statusOf (runQuotaController sampleBuiltins (sampleEnv None (Some ''100'') None)
       (sampleRemote (usagePayload 100 0 0) True) (worldWith (Some (storedAs disabled))))
     = Some enabled"
  using statusOf_run [OF gatherInputs_reenable_only [of 200 True disabled]]
    statusOf_run [OF gatherInputs_reenable_only [of 100 True disabled]]
  by (simp add: normaliseThresholds_reenable_only fmtB_def fmtI_def toggle_sample status_eval)

section \<open>The live status\<close>

lemma currentStatusOf_nothing_stored:
  "currentStatusOf remote None w = fetchAccessKeyStatus remote w"
  by (simp add: currentStatusOf_def)

lemma fetchAccessKeyStatus_status_omitted:
  assumes "accessKeyResponse remote = Some response" and "ok response"
    and "body response = Json payload"
    and "Option.bind (Option.bind payload result) keyStatus = None"
  shows "fetchAccessKeyStatus remote w = (Inr enabled, logCall FetchAccessKey w)"
  using assms by (simp add: fetchAccessKeyStatus_def)

text \<open>
  Claim C10.  When the state store holds nothing, the usage fetch and the thresholds succeed,
  and the access-key request is answered ok with a JSON body that omits the status (a
  \<open>null\<close> body, no \<open>result\<close>, or a \<open>result\<close> without \<open>status\<close>), the controller
  queries the access controller and takes \<open>enabled\<close> as the current status, without error.
\<close>

theorem live_status_defaults_to_enabled:
  assumes ids: "CF_ACCOUNT_ID env \<noteq> []" "CF_API_TOKEN env \<noteq> []" "R2_ACCESS_KEY_ID env \<noteq> []"
    and fetched: "fst (fetchR2Usage remote w) = Inr u"
    and resolved: "snd (normaliseThresholds b env) = Inr ts"
    and nothing_stored: "kv w = None"
    and response: "accessKeyResponse remote = Some response" "ok response"
      "body response = Json payload"
    and omitted: "Option.bind (Option.bind payload result) keyStatus = None"
  shows "fst (gatherInputs b env remote w) = Inr (u, map (assignUsage u) ts, enabled)
       \<and> last (calls (snd (gatherInputs b env remote w))) = FetchAccessKey"
proof -
  obtain w1 where f: "fetchR2Usage remote w = (Inr u, w1)"
    using fetched by (cases "fetchR2Usage remote w") simp
  have w1: "w1 = logCall FetchUsage w" using fetchR2Usage_world [of remote w] f by simp
  obtain ws where n: "normaliseThresholds b env = (ws, Inr ts)"
    using resolved by (cases "normaliseThresholds b env") simp
  have "gatherInputs b env remote w =
          (Inr (u, map (assignUsage u) ts, enabled),
           logCall FetchAccessKey
             (logCall KvGet w1\<lparr>calls := calls (logCall KvGet w1) @ map ConsoleWarn ws\<rparr>))"
    using ids nothing_stored
    by (simp add: gatherInputs_def f n w1 Let_def currentStatusOf_nothing_stored
        fetchAccessKeyStatus_status_omitted [OF response omitted] logCall_def)
  then show ?thesis by (simp add: logCall_def)
qed

theorem live_status_defaults_to_enabled_witness:
  "(\<exists>u ts. fst (gatherInputs sampleBuiltins (sampleEnv (Some ''100'') None None)
                   (sampleRemote (usagePayload 5 0 0) True) (worldWith None))
             = Inr (u, ts, enabled))
 \<and> last (calls (snd (gatherInputs sampleBuiltins (sampleEnv (Some ''100'') None None)
                         (sampleRemote (usagePayload 5 0 0) True) (worldWith None))))
     = FetchAccessKey"
proof -
  have r: "accessKeyResponse (sampleRemote (usagePayload 5 0 0) True) =
             Some (okResponse (Json (Some \<lparr>result = Some \<lparr>keyStatus = None\<rparr>\<rparr>)))"
      "ok (okResponse (Json (Some \<lparr>result = Some \<lparr>keyStatus = None\<rparr>\<rparr>)))"
      "body (okResponse (Json (Some \<lparr>result = Some \<lparr>keyStatus = None\<rparr>\<rparr>))) =
         Json (Some \<lparr>result = Some \<lparr>keyStatus = None\<rparr>\<rparr>)"
      "Option.bind (Option.bind (Some \<lparr>result = Some \<lparr>keyStatus = None\<rparr>\<rparr>) result) keyStatus
         = None"
    by (simp_all add: sampleRemote_def okResponse_def)
  have f: "fst (fetchR2Usage (sampleRemote (usagePayload 5 0 0) True) (worldWith None)) =
             Inr \<lparr>storageBytes = Some (Num 5), classARequests = Some (Num 0),
                   classBRequests = Some (Num 0)\<rparr>"
    by (simp add: fetchR2Usage_sample)
  have n: "snd (normaliseThresholds sampleBuiltins (sampleEnv (Some ''100'') None None)) =
             Inr [\<lparr>name = storage, usage = None, quota = Some (Num 100),
                    reenable = Some (Num 80), formatter = formatBytesOptional sampleBuiltins\<rparr>,
                  \<lparr>name = classA, usage = None, quota = Some (Num 1000000),
                    reenable = Some (Num 800000), formatter = formatInteger sampleBuiltins\<rparr>,
                  \<lparr>name = classB, usage = None, quota = Some (Num 10000000),
                    reenable = Some (Num 8000000), formatter = formatInteger sampleBuiltins\<rparr>]"
    by (simp add: normaliseThresholds_quota_100)
  have k: "kv (worldWith None) = None" by (simp add: worldWith_simps)
  show ?thesis
    using live_status_defaults_to_enabled [OF sampleEnv_ids f n k r] by simp
qed

section \<open>Resolution of the re-enable threshold\<close>

text \<open>
  A setting that one of the two parsers accepts is finite and positive; no other override
  reaches \<open>determineReenable\<close>.
\<close>

lemma parseOptionalSize_valid:
  "parseOptionalSize b raw = Inr (Some x) \<Longrightarrow> isFinite x \<and> \<not> js_le x (Num 0)"
  by (auto simp: parseOptionalSize_def Let_def split: option.splits if_splits)

lemma parseOptionalNumber_valid:
  "parseOptionalNumber b raw None = Inr (Some x) \<Longrightarrow> isFinite x \<and> \<not> js_le x (Num 0)"
  by (auto simp: parseOptionalNumber_def Let_def split: option.splits if_splits)

lemma not_le_not_lt: "\<not> js_le x y \<Longrightarrow> \<not> js_lt x y"
  by (simp add: js_le_def)

subsection \<open>Thresholds of whole-number quotas\<close>

text \<open>
  The product \<open>quota * 0.9\<close> is a double.  For a quota with a value in
  \<open>[1/2, 2^53)\<close> rounding moves it by at most one part in \<open>2^53\<close>, which for a whole
  quota up to \<open>2^49\<close> never crosses an integer: the floor is the exact
  \<open>\<lfloor>9 * quota / 10\<rfloor>\<close>, and likewise for \<open>0.8\<close>.
\<close>

lemma norm_down_spec:
  assumes "0 < m" and "m < 2 ^ 53" and "- 1074 \<le> e"
  shows "\<exists>k. norm_down m e = (m * 2 ^ k, e - int k) \<and> m * 2 ^ k < 2 ^ 53 \<and>
             - 1074 \<le> e - int k \<and> (2 ^ 52 \<le> m * 2 ^ k \<or> e - int k = - 1074)"
  using assms
proof (induction m e rule: norm_down.induct)
  case (1 m e)
  show ?case
  proof (cases "m < 2 ^ 52 \<and> - 1074 < e")
    case True
    then have pre: "0 < m * 2" "m * 2 < 2 ^ 53" "- 1074 \<le> e - 1"
      using 1(2) by simp_all
    obtain k where k: "norm_down (m * 2) (e - 1) = (m * 2 * 2 ^ k, e - 1 - int k)"
        "m * 2 * 2 ^ k < 2 ^ 53" "- 1074 \<le> e - 1 - int k"
        "2 ^ 52 \<le> m * 2 * 2 ^ k \<or> e - 1 - int k = - 1074"
      using 1(1) [OF True pre] by blast
    have "norm_down m e = norm_down (m * 2) (e - 1)"
      by (simp only: norm_down.simps [of m e] True if_True simp_thms)
    then show ?thesis
      using k by (intro exI [of _ "Suc k"]) (simp add: mult.assoc)
  next
    case False
    then have "norm_down m e = (m, e)"
      by (simp only: norm_down.simps [of m e] if_False)
    then show ?thesis using False 1(3,4) by (intro exI [of _ 0]) auto
  qed
qed

lemma round_half_even_lower: "\<lfloor>m\<rfloor> \<le> round_half_even m"
  by (simp add: round_half_even_def Let_def)

lemma round_half_even_upper: "of_int (round_half_even m) \<le> m + 1 / 2"
proof -
  define d where "d = m - of_int \<lfloor>m\<rfloor>"
  have fl: "of_int \<lfloor>m\<rfloor> = m - d" by (simp add: d_def)
  have d0: "0 \<le> d" by (simp add: d_def)
  have "round_half_even m =
          (if d < 1 / 2 then \<lfloor>m\<rfloor> else if 1 / 2 < d then \<lfloor>m\<rfloor> + 1
           else if even \<lfloor>m\<rfloor> then \<lfloor>m\<rfloor> else \<lfloor>m\<rfloor> + 1)"
    by (simp only: round_half_even_def Let_def d_def)
  then show ?thesis using d0 by (auto simp: fl)
qed

lemma scale2_neg: "scale2 n (- int j) = of_int n / 2 ^ j"
  by (cases "j = 0") (simp_all add: scale2_def)

lemma half_ulp:
  fixes x N c :: rat
  assumes "0 < N" and "0 < c" and "c \<le> x * N"
  shows "1 / (2 * N) \<le> x / (2 * c)"
proof -
  have "c / N \<le> x" using assms(1,3) by (simp add: pos_divide_le_eq)
  then have "c / N / (2 * c) \<le> x / (2 * c)" using assms(2) by (intro divide_right_mono) simp_all
  moreover have "c / N / (2 * c) = 1 / (2 * N)" using assms(1,2) by (simp add: field_simps)
  ultimately show ?thesis by simp
qed

lemma round_double_floor:
  assumes half: "1 / 2 \<le> x" and small: "x < 2 ^ 53"
    and lower: "of_int k \<le> x" and upper: "x * (1 + 1 / 2 ^ 53) < of_int k + 1"
  shows "js_floor (round_double x) = Num (of_int k)"
proof -
  have pos: "0 < x" using half by simp
  have "\<not> 2 ^ 53 \<le> x" using small by simp
  then have up: "norm_up x 0 = (x, 0)"
    by (simp only: norm_up.simps [of x 0] if_False)
  obtain j where j: "norm_down x 0 = (x * 2 ^ j, 0 - int j)" "x * 2 ^ j < 2 ^ 53"
      "- 1074 \<le> 0 - int j" "2 ^ 52 \<le> x * 2 ^ j \<or> 0 - int j = - 1074"
    using norm_down_spec [OF pos small, of 0] by auto
  define N :: rat where "N = 2 ^ j"
  have Npos: "0 < N" by (simp add: N_def)
  have big: "2 ^ 52 \<le> x * N"
  proof (rule ccontr)
    assume "\<not> 2 ^ 52 \<le> x * N"
    then have "j = 1074" using j(4) by (simp add: N_def)
    then have "(2::rat) ^ 1073 \<le> x * 2 ^ j"
      using half by simp
    then show False using j(2) by simp
  qed
  define r where "r = of_int (round_half_even (x * N)) / N"
  have rd: "round_double x = (if 2 ^ 1024 \<le> r then PosInf else Num r)"
    using pos by (simp add: round_double_def up j(1) scale2_neg r_def N_def)
  have "of_int k * N \<le> x * N" using lower Npos by simp
  moreover have "of_int k * N = of_int (k * 2 ^ j)" by (simp add: N_def)
  ultimately have "k * 2 ^ j \<le> \<lfloor>x * N\<rfloor>" by (simp add: le_floor_iff)
  then have "k * 2 ^ j \<le> round_half_even (x * N)"
    using round_half_even_lower [of "x * N"] by linarith
  then have "of_int (k * 2 ^ j) \<le> (of_int (round_half_even (x * N)) :: rat)"
    by (simp only: of_int_le_iff)
  then have "of_int k * N \<le> of_int (round_half_even (x * N))" by (simp add: N_def)
  then have lo: "of_int k \<le> r" using Npos by (simp add: r_def pos_le_divide_eq)
  have "r \<le> (x * N + 1 / 2) / N"
    using round_half_even_upper [of "x * N"] Npos by (simp add: r_def divide_right_mono)
  also have "\<dots> = x + 1 / (2 * N)" using Npos by (simp add: field_simps)
  also have "1 / (2 * N) \<le> x / 2 ^ 53"
  proof -
    have "(2::rat) ^ 53 = 2 * 2 ^ 52" by simp
    then show ?thesis using half_ulp [OF Npos _ big] by simp
  qed
  finally have "r \<le> x + x / 2 ^ 53" by simp
  then have hi: "r < of_int k + 1" using upper by (simp add: algebra_simps)
  have "r < 2 ^ 1024"
  proof -
    have "r < x + 1" using hi lower by linarith
    also have "\<dots> < 2 ^ 53 + 1" using small by simp
    also have "\<dots> \<le> (2::rat) ^ 1024" by simp
    finally show ?thesis .
  qed
  moreover have "\<lfloor>r\<rfloor> = k" using lo hi by (simp add: floor_unique)
  ultimately show ?thesis by (simp add: rd)
qed


lemma whole_quota_thresholds:
  assumes "0 < n" and "n \<le> 2 ^ 49"
  shows "js_floor (js_mul (Num (of_nat n)) lit_0_9) = Num (of_nat (9 * n div 10))"
    and "js_floor (js_mul (Num (of_nat n)) lit_0_8) = Num (of_nat (8 * n div 10))"
proof -
  define q :: rat where "q = of_nat n"
  have q1: "1 \<le> q" using assms(1) by (simp add: q_def)
  have "q \<le> of_nat (2 ^ 49)" unfolding q_def using assms(2) by (simp only: of_nat_le_iff)
  then have q2: "q \<le> 2 ^ 49" by simp
  have d9: "10 * of_nat (9 * n div 10) \<le> 9 * q" "9 * q \<le> 10 * of_nat (9 * n div 10) + 9"
  proof -
    have "10 * (9 * n div 10) \<le> 9 * n" "9 * n \<le> 10 * (9 * n div 10) + 9" by presburger+
    then have "of_nat (10 * (9 * n div 10)) \<le> (of_nat (9 * n) :: rat)"
      "(of_nat (9 * n) :: rat) \<le> of_nat (10 * (9 * n div 10) + 9)"
      by (simp_all only: of_nat_le_iff)
    then show "10 * of_nat (9 * n div 10) \<le> 9 * q" "9 * q \<le> 10 * of_nat (9 * n div 10) + 9"
      by (simp_all add: q_def)
  qed
  have d8: "10 * of_nat (8 * n div 10) \<le> 8 * q" "8 * q \<le> 10 * of_nat (8 * n div 10) + 8"
  proof -
    have "10 * (8 * n div 10) \<le> 8 * n" "8 * n \<le> 10 * (8 * n div 10) + 8" by presburger+
    then have "of_nat (10 * (8 * n div 10)) \<le> (of_nat (8 * n) :: rat)"
      "(of_nat (8 * n) :: rat) \<le> of_nat (10 * (8 * n div 10) + 8)"
      by (simp_all only: of_nat_le_iff)
    then show "10 * of_nat (8 * n div 10) \<le> 8 * q" "8 * q \<le> 10 * of_nat (8 * n div 10) + 8"
      by (simp_all add: q_def)
  qed
  have "js_floor (round_double (q * (8106479329266893 / 2 ^ 53))) =
          Num (of_int (int (9 * n div 10)))"
    using q1 q2 d9 by (intro round_double_floor) simp_all
  then show "js_floor (js_mul (Num (of_nat n)) lit_0_9) = Num (of_nat (9 * n div 10))"
    by (simp add: lit_0_9_value q_def)
  have "js_floor (round_double (q * (3602879701896397 / 2 ^ 52))) =
          Num (of_int (int (8 * n div 10)))"
    using q1 q2 d8 by (intro round_double_floor) simp_all
  then show "js_floor (js_mul (Num (of_nat n)) lit_0_8) = Num (of_nat (8 * n div 10))"
    by (simp add: lit_0_8_value q_def)
qed

subsection \<open>Clamped and default thresholds\<close>

lemma parseDecimal_150: "parseDecimal ''150'' = Some (150, [])"
  by (simp add: decimal_eval)

lemma parseOptionalNumber_150:
  "parseOptionalNumber b (Some ''150'') None = Inr (Some (Num 150))"
  by (simp add: parseOptionalNumber_def js_Number_def parseDecimal_150 round_double_eval
      js_le_def)

lemma parseDecimal_3pb: "parseDecimal ''3pb'' = Some (3, ''pb'')"
  by (simp add: decimal_eval)

lemma parseDecimal_4pb: "parseDecimal ''4pb'' = Some (4, ''pb'')"
  by (simp add: decimal_eval)

lemma parseOptionalSize_3pb:
  "parseOptionalSize b (Some ''3pb'') = Inr (Some (Num 3377699720527872))"
proof -
  have "trim ''3pb'' = ''3pb''" "skipSpaces whiteSpace ''pb'' = ''pb''"
    by (simp_all add: trim_eval)
  then show ?thesis
    by (simp add: parseOptionalSize_def parseSizeToBytes_def parseDecimal_3pb multipliers_def
        round_double_eval js_le_def)
qed

lemma parseOptionalSize_4pb:
  "parseOptionalSize b (Some ''4pb'') = Inr (Some (Num 4503599627370496))"
proof -
  have "trim ''4pb'' = ''4pb''" "skipSpaces whiteSpace ''pb'' = ''pb''"
    by (simp_all add: trim_eval)
  then show ?thesis
    by (simp add: parseOptionalSize_def parseSizeToBytes_def parseDecimal_4pb multipliers_def
        round_double_eval js_le_def)
qed

lemma default_reenable_3pb:
  "js_floor (js_mul (Num 3377699720527872) lit_0_8) = Num 2702159776422298"
  by (simp add: lit_0_8_value round_double_eval)

lemma clamped_reenable_3pb:
  "js_floor (js_mul (Num 3377699720527872) lit_0_9) = Num 3039929748475085"
  by (simp add: lit_0_9_value round_double_eval)

text \<open>
  Claim C6, as stated, fails.  With \<open>QUOTA_BYTES\<close> set to \<open>3pb\<close>, a quota of
  3377699720527872 bytes, the default threshold is 2702159776422298, one more than the
  floor of eight tenths of the quota; with \<open>REENABLE_THRESHOLD\<close> set to \<open>4pb\<close> the
  clamped threshold is 3039929748475085, one more than the floor of nine tenths of the quota.
\<close>

theorem clamp_and_default_counterexample:
  "parseOptionalSize sampleBuiltins (Some ''3pb'') = Inr (Some (Num 3377699720527872))
 \<and> parseOptionalSize sampleBuiltins (Some ''4pb'') = Inr (Some (Num 4503599627370496))
 \<and> determineReenable (Some (Num 3377699720527872)) None =
       ([], Inr (Some (Num 2702159776422298)))
 \<and> \<lfloor>3377699720527872 * (8 / 10 :: rat)\<rfloor> = 2702159776422297
 \<and> determineReenable (Some (Num 3377699720527872)) (Some (Num 4503599627370496)) =
       ([warn_reenable_high], Inr (Some (Num 3039929748475085)))
 \<and> \<lfloor>3377699720527872 * (9 / 10 :: rat)\<rfloor> = 3039929748475084"
  by (simp add: parseOptionalSize_3pb parseOptionalSize_4pb default_reenable_3pb
      clamped_reenable_3pb js_gt_def)

text \<open>
  Claim C6, amended.  An override that one of the two parsers has accepted and that exceeds
  the quota resolves with exactly one warning and no error, and with no override and a quota
  the resolution gives no warning and no error.  For a whole-number quota from 1 to
  \<open>2^49\<close> the clamped threshold is exactly \<open>\<lfloor>9 * quota / 10\<rfloor>\<close> and the default
  threshold exactly \<open>\<lfloor>8 * quota / 10\<rfloor>\<close>; quota 100 with override 150 resolves to 90.
\<close>

theorem whole_quota_resolution:
  "((parseOptionalSize b raw = Inr (Some override) \<or>
     parseOptionalNumber b raw None = Inr (Some override)) \<and> js_gt override q \<longrightarrow>
      fst (determineReenable (Some q) (Some override)) = [warn_reenable_high]
    \<and> \<not> isl (snd (determineReenable (Some q) (Some override))))
 \<and> fst (determineReenable (Some q) None) = []
 \<and> \<not> isl (snd (determineReenable (Some q) None))
 \<and> (0 < n \<and> n \<le> 2 ^ 49 \<longrightarrow>
      determineReenable (Some (Num (of_nat n))) None =
        ([], Inr (Some (Num (of_nat (8 * n div 10)))))
    \<and> ((parseOptionalSize b raw = Inr (Some override) \<or>
         parseOptionalNumber b raw None = Inr (Some override)) \<and>
        js_gt override (Num (of_nat n)) \<longrightarrow>
          determineReenable (Some (Num (of_nat n))) (Some override) =
            ([warn_reenable_high], Inr (Some (Num (of_nat (9 * n div 10)))))))"
proof -
  have valid: "isFinite override \<and> \<not> js_le override (Num 0)"
    if "parseOptionalSize b raw = Inr (Some override) \<or>
        parseOptionalNumber b raw None = Inr (Some override)"
    using that parseOptionalSize_valid [of b raw override]
      parseOptionalNumber_valid [of b raw override] by blast
  have clamp: "determineReenable (Some q') (Some override) =
                 ([warn_reenable_high], Inr (Some (js_floor (js_mul q' lit_0_9))))"
    if "isFinite override \<and> \<not> js_le override (Num 0)" and "js_gt override q'" for q'
    using that by (simp add: not_le_not_lt)
  have general: "fst (determineReenable (Some q) (Some override)) = [warn_reenable_high]
               \<and> \<not> isl (snd (determineReenable (Some q) (Some override)))"
    if "parseOptionalSize b raw = Inr (Some override) \<or>
        parseOptionalNumber b raw None = Inr (Some override)" and "js_gt override q"
    using clamp [OF valid [OF that(1)] that(2)] by simp
  have whole: "determineReenable (Some (Num (of_nat n))) None =
                 ([], Inr (Some (Num (of_nat (8 * n div 10)))))
             \<and> ((parseOptionalSize b raw = Inr (Some override) \<or>
                  parseOptionalNumber b raw None = Inr (Some override)) \<and>
                 js_gt override (Num (of_nat n)) \<longrightarrow>
                   determineReenable (Some (Num (of_nat n))) (Some override) =
                     ([warn_reenable_high], Inr (Some (Num (of_nat (9 * n div 10))))))"
    if n: "0 < n" "n \<le> 2 ^ 49"
  proof -
    have "determineReenable (Some (Num (of_nat n))) None =
            ([], Inr (Some (Num (of_nat (8 * n div 10)))))"
      using whole_quota_thresholds(2) [OF n] by simp
    moreover have "determineReenable (Some (Num (of_nat n))) (Some override) =
            ([warn_reenable_high], Inr (Some (Num (of_nat (9 * n div 10)))))"
      if "parseOptionalSize b raw = Inr (Some override) \<or>
          parseOptionalNumber b raw None = Inr (Some override)"
        and "js_gt override (Num (of_nat n))"
      using clamp [OF valid [OF that(1)] that(2)] whole_quota_thresholds(1) [OF n] by simp
    ultimately show ?thesis by blast
  qed
  have none: "fst (determineReenable (Some q) None) = []
            \<and> \<not> isl (snd (determineReenable (Some q) None))"
    by simp
  from general whole none show ?thesis by blast
qed

theorem whole_quota_resolution_witness:
  "determineReenable (Some (Num 100)) (Some (Num 150)) =
     ([warn_reenable_high], Inr (Some (Num 90)))
 \<and> determineReenable (Some (Num 100)) None = ([], Inr (Some (Num 80)))
 \<and> determineReenable (Some (Num 1073741824)) None = ([], Inr (Some (Num 858993459)))"
proof -
  have p: "parseOptionalNumber sampleBuiltins (Some ''150'') None = Inr (Some (Num 150))"
    by (rule parseOptionalNumber_150)
  have g: "js_gt (Num 150) (Num (of_nat 100))" by (simp add: js_gt_def)
  have r: "(0::nat) < 100 \<and> (100::nat) \<le> 2 ^ 49" "(0::nat) < 1073741824 \<and> (1073741824::nat) \<le> 2 ^ 49"
    by simp_all
  show ?thesis
    using whole_quota_resolution [of sampleBuiltins "Some ''150''" "Num 150" "Num 100" 100]
      whole_quota_resolution [of sampleBuiltins "Some ''150''" "Num 150" "Num 100" 1073741824]
      p g r
    by simp
qed

subsection \<open>An override of zero\<close>

text \<open>
  The two validations of an override.  \<open>determineReenable\<close> throws exactly on a
  non-finite or negative override; the parser of the setting throws exactly on a non-empty
  string whose value is non-finite, negative or zero.
\<close>

lemma determineReenable_fails_iff:
  "isl (snd (determineReenable q (Some override))) \<longleftrightarrow>
     \<not> isFinite override \<or> js_lt override (Num 0)"
  by (cases q) (simp_all)

lemma parseOptionalNumber_fails_iff:
  "isl (parseOptionalNumber b (Some s) d) \<longleftrightarrow>
     s \<noteq> [] \<and> (\<not> isFinite (js_Number b s) \<or> js_le (js_Number b s) (Num 0))"
  by (simp add: parseOptionalNumber_def Let_def)

lemma parseOptionalSize_fails_iff:
  "isl (parseOptionalSize b (Some s)) \<longleftrightarrow>
     s \<noteq> [] \<and> (\<not> isFinite (parseSizeToBytes b s) \<or> js_le (parseSizeToBytes b s) (Num 0))"
  by (simp add: parseOptionalSize_def Let_def)

text \<open>
  Claim C7 at a failing input.  An override of \<open>0\<close> never reaches
  \<open>determineReenable\<close>, which would accept it: the parsers of the settings, shared with
  the quotas, reject every value that is not positive.
\<close>

theorem zero_override_rejected:
  "snd (normaliseThresholds b (sampleEnv None None (Some ''0''))) = Inl InvalidNumericQuota
 \<and> snd (normaliseThresholds b (sampleEnv (Some ''100'') (Some ''0'') None)) = Inl InvalidQuotaSize
 \<and> snd (determineReenable (Some (Num 1000000)) (Some (Num 0))) = Inr (Some (Num 0))"
  by (simp add: thresholds_eval js_gt_def)

section \<open>Further properties\<close>

subsection \<open>The decision does not depend on the order of the metrics\<close>

text \<open>
  Two threshold lists with the same metrics, in any order and multiplicity, give the same next
  state.
\<close>

theorem evaluator_order_independent:
  assumes "set ts = set ts'"
  shows "fst (evaluate cur ts) = fst (evaluate cur ts')"
  using assms by (simp add: evaluate_status shouldReenable_def list_all_iff)

theorem evaluator_order_independent_witness:
  "fst (evaluate disabled [governed storage fmtB 85, unconfigured classA fmtI]) =
   fst (evaluate disabled [unconfigured classA fmtI, governed storage fmtB 85])"
proof -
  have "set [governed storage fmtB 85, unconfigured classA fmtI] =
        set [unconfigured classA fmtI, governed storage fmtB 85]" by auto
  then show ?thesis by (rule evaluator_order_independent)
qed

subsection \<open>A metric with neither quota nor threshold\<close>

lemma reasonsLoop_append:
  "reasonsLoop (xs @ ys) over checks =
     (case reasonsLoop xs over checks of (over', checks') \<Rightarrow> reasonsLoop ys over' checks')"
  by (induction xs arbitrary: over checks) (simp_all add: Let_def)

text \<open>
  A metric with no quota and no re-enable threshold changes nothing: next state and both
  reason lists are those of the list without it, whatever its usage.
\<close>

theorem unconfigured_metric_is_inert:
  assumes "quota m = None" and "reenable m = None"
  shows "evaluate cur (pre @ m # post) = evaluate cur (pre @ post)"
proof -
  have "reasonsLoop (pre @ m # post) [] [] = reasonsLoop (pre @ post) [] []"
    using assms by (simp add: reasonsLoop_append Let_def split: prod.splits)
  moreover have "shouldReenable (pre @ m # post) = shouldReenable (pre @ post)"
    using assms by (simp add: shouldReenable_def)
  ultimately show ?thesis by (simp add: evaluate_def)
qed

theorem unconfigured_metric_is_inert_witness:
  "evaluate disabled ([governed classA fmtI 85] @ \<lparr>name = storage, usage = Some (Num 7), quota = None,
       reenable = None, formatter = fmtB\<rparr> # []) =
   evaluate disabled ([governed classA fmtI 85] @ [])"
  by (rule unconfigured_metric_is_inert) simp_all

subsection \<open>A successful invocation stores its decision\<close>

text \<open>
  When an invocation succeeds, the state store holds a snapshot whose status and message are
  the returned ones, written by exactly one \<open>put\<close>.
\<close>

theorem successful_run_persists_decision:
  assumes "runQuotaController b env remote w = (Inr res, w')"
  shows "\<exists>st. kv w' = Some st \<and> accessKeyStatus st = resultStatus res \<and>
              message st = resultMessage res \<and> putCalls w' = putCalls w @ [KvPut st]"
proof -
  obtain g w1 where gi: "gatherInputs b env remote w = (g, w1)"
    by (cases "gatherInputs b env remote w")
  have pw: "putCalls w1 = putCalls w"
    using gatherInputs_putCalls [of b env remote w] gi by simp
  show ?thesis
  proof (cases g)
    case (Inl e)
    then show ?thesis using gi assms by (simp add: runQuotaController_def)
  next
    case (Inr x)
    obtain u ts cur where x: "x = (u, ts, cur)" by (cases x)
    obtain d ov ch where ev: "evaluate cur ts = (d, ov, ch)" by (cases "evaluate cur ts")
    show ?thesis
    proof (cases "d = cur")
      case True
      then show ?thesis using gi Inr x ev pw assms
        by (auto simp: runQuotaController_def Let_def kvPut_def logCall_def putCalls_def)
    next
      case False
      obtain r w2 where up: "updateAccessKeyStatus remote d w1 = (r, w2)"
        by (cases "updateAccessKeyStatus remote d w1")
      then have w2: "w2 = logCall (PatchAccessKey d) w1"
        using updateAccessKeyStatus_world [of remote d w1] by simp
      show ?thesis using gi Inr x ev pw False up w2 assms
        by (cases r)
          (auto simp: runQuotaController_def Let_def kvPut_def logCall_def putCalls_def)
    qed
  qed
qed

theorem successful_run_persists_decision_witness:
  "\<exists>st. kv (snd (runQuotaController sampleBuiltins (sampleEnv (Some ''100'') None None)
                    (sampleRemote (usagePayload 100 0 0) True)
                    (worldWith (Some (storedAs enabled))))) = Some st
      \<and> accessKeyStatus st = disabled"
proof -
  let ?run = "runQuotaController sampleBuiltins (sampleEnv (Some ''100'') None None)
                (sampleRemote (usagePayload 100 0 0) True) (worldWith (Some (storedAs enabled)))"
  have "statusOf ?run = Some disabled"
    using statusOf_run [OF gatherInputs_quota_100_stored [of 100 True enabled]]
    by (simp add: toggle_sample status_eval)
  then obtain res where res: "fst ?run = Inr res" "resultStatus res = disabled"
    by (auto simp: statusOf_def split: sum.splits)
  then have "?run = (Inr res, snd ?run)" by (simp add: prod_eq_iff)
  from successful_run_persists_decision [OF this] res(2) show ?thesis by auto
qed

end
